theory Spec2Isabelle
  imports Main
begin

section \<open>The RPA Challenge runner (src/agent/rpa_challenge/rpa_challenge_agent.py)\<close>

text \<open>
  The module drives two browser agents: one that obtains a spreadsheet, one that types
  its rows into a web form. The collaborators (network, file system, agents, browser) are
  outside the module; here they are oracles of an environment record, and every call the
  module makes to them is written into a trace.

  Conventions of the embedding:
  \<^item> a path inside the downloads directory is its base name;
  \<^item> messages are ASCII (accents dropped);
  \<^item> only \<open>logger.error\<close> calls are traced, not warnings or infos;
  \<^item> an \<open>await\<close> of the try body (agent run, sleep) is a tick: there the
    environment may change the downloads directory and may deliver a cancellation;
  \<^item> the write of the summary file and the caller's callback may raise, as the
    environment and the callback say; the write of the direct download is inside the
    \<open>try\<close> of \<open>run_download_agent\<close> and its failure is that of the request.
\<close>

subsection \<open>Exceptions\<close>

text \<open>
  The exceptions the module raises itself, by raise statement, and the ones it receives.
  On the interpreters the agent library runs on, \<open>asyncio.CancelledError\<close> derives
  from \<open>BaseException\<close> only, so \<open>except Exception\<close> does not catch it;
  \<open>asyncio.TimeoutError\<close> is an ordinary \<open>Exception\<close>.
\<close>

datatype exn =
    ValueError                      \<comment> \<open>"Browser context nao inicializado"\<close>
  | TimeoutError                    \<comment> \<open>raised by asyncio.wait_for\<close>
  | CancelledError                  \<comment> \<open>thrown into the task by Task.cancel()\<close>
  | DownloadFailed "string list"    \<comment> \<open>"Falha ao baixar o arquivo Excel: {errors}"\<close>
  | ArtifactNotFound                \<comment> \<open>"Nao foi possivel encontrar o arquivo Excel apos varias tentativas"\<close>
  | ExcelFileNotFound               \<comment> \<open>"Nao foi possivel encontrar o arquivo Excel baixado"\<close>
  | ExcelDataUnreadable             \<comment> \<open>"Nao foi possivel ler os dados do arquivo Excel"\<close>
  | ProcessFailed "string list"     \<comment> \<open>"Falha ao processar os dados do formulario: {errors}"\<close>
  | External string                 \<comment> \<open>any other Exception of a collaborator\<close>

fun is_Exception :: "exn \<Rightarrow> bool" where
  "is_Exception CancelledError = False"
| "is_Exception _ = True"

datatype 'a outcome = Returns 'a | Raises exn

subsection \<open>The downloads directory\<close>

type_synonym row = "(string \<times> string) list"

record disk_file =
  fname :: string
  fsize :: nat                   \<comment> \<open>os.path.getsize, st_size\<close>
  fctime :: nat                  \<comment> \<open>os.path.getctime\<close>
  sheet :: "row list option"     \<comment> \<open>the records pd.read_excel yields; None: it raises\<close>
  locked :: bool                 \<comment> \<open>os.remove raises on this file\<close>

definition lookup :: "disk_file list \<Rightarrow> string \<Rightarrow> disk_file option" where
  "lookup fs n = find (\<lambda>f. fname f = n) fs"

definition getsize :: "disk_file list \<Rightarrow> string \<Rightarrow> nat outcome" where
  "getsize fs n =
     (case lookup fs n of None \<Rightarrow> Raises (External ''FileNotFoundError'')
      | Some f \<Rightarrow> Returns (fsize f))"

text \<open>
  \<open>os.path.getctime\<close> is only applied to names that were read a moment before; the
  branch for a missing file is not reached (lemma \<open>scan_lookup\<close> below).
\<close>

definition getctime :: "disk_file list \<Rightarrow> string \<Rightarrow> nat" where
  "getctime fs n = (case lookup fs n of None \<Rightarrow> 0 | Some f \<Rightarrow> fctime f)"

definition os_remove :: "disk_file list \<Rightarrow> string \<Rightarrow> disk_file list option" where
  "os_remove fs n =
     (case lookup fs n of None \<Rightarrow> None
      | Some f \<Rightarrow> if locked f then None else Some (filter (\<lambda>g. fname g \<noteq> n) fs))"

text \<open>
  \<open>glob.glob(DOWNLOADS_DIR / '*challenge*.xlsx')\<close> on a case-sensitive file system: the
  name ends in \<open>.xlsx\<close>, the part before that ending contains \<open>challenge\<close>, and the
  name does not start with a dot (the wildcard does not match hidden files).
\<close>

fun starts_with :: "string \<Rightarrow> string \<Rightarrow> bool" where
  "starts_with [] s = True"
| "starts_with (a # p) [] = False"
| "starts_with (a # p) (b # s) = (a = b \<and> starts_with p s)"

fun occurs_in :: "string \<Rightarrow> string \<Rightarrow> bool" where
  "occurs_in p [] = (p = [])"
| "occurs_in p (c # s) = (starts_with p (c # s) \<or> occurs_in p s)"

definition glob_match :: "string \<Rightarrow> bool" where
  "glob_match n =
     (\<not> starts_with ''.'' n \<and> starts_with (rev ''.xlsx'') (rev n)
      \<and> occurs_in ''challenge'' (rev (drop 5 (rev n))))"

definition glob :: "disk_file list \<Rightarrow> string list" where
  "glob fs = map fname (filter (\<lambda>f. glob_match (fname f)) fs)"

definition direct_file :: string where
  "direct_file = ''challenge_direct.xlsx''"

subsection \<open>The process: directory, parse cache, written summaries, trace\<close>

datatype agent =
    PageCheckAgent            \<comment> \<open>task: open the site, check that it loaded\<close>
  | DownloadAgent             \<comment> \<open>task: open the site, click "Download Excel"\<close>
  | ProcessAgent "row list"   \<comment> \<open>task: fill the form with these rows\<close>

record history =
  is_done :: bool
  errors :: "string list"

datatype event =
    PdReadExcel string         \<comment> \<open>pd.read_excel(path)\<close>
  | OsRemove string            \<comment> \<open>os.remove(path)\<close>
  | LogError string            \<comment> \<open>logger.error\<close>
  | UrlOpen                    \<comment> \<open>urllib.request.urlopen\<close>
  | FileWrite string           \<comment> \<open>open(path, 'wb').write\<close>
  | AgentRun agent nat nat     \<comment> \<open>asyncio.wait_for(agent.run(max_steps), timeout)\<close>
  | Sleep nat                  \<comment> \<open>asyncio.sleep\<close>
  | ContextClose               \<comment> \<open>self.context.close()\<close>
  | BrowserClose               \<comment> \<open>self.browser.close()\<close>
  | SummaryWrite string        \<comment> \<open>open(self.result_file, "w").write\<close>
  | DoneCallback bool          \<comment> \<open>on_done_callback({"success": ...})\<close>

datatype line =
    Msg exn                    \<comment> \<open>the error_msg of a phase\<close>
  | RunError exn               \<comment> \<open>"Erro durante a execucao do RPA Challenge: {e}"\<close>
  | FinalSummary               \<comment> \<open>"===== RESUMO FINAL DA EXECUCAO ====="\<close>
  | AgentSection string history  \<comment> \<open>what log_agent_history appends for one agent\<close>

text \<open>\<open>functools.lru_cache(maxsize=1)\<close>: one entry, keyed by the argument, with its counters.\<close>

record lru_cache =
  entry :: "(string \<times> row list option) option"
  hits :: nat
  misses :: nat

record world =
  fs :: "disk_file list"
  lru :: lru_cache
  summaries :: "string \<rightharpoonup> line list"
  ticks :: nat
  trace :: "event list"

definition emit :: "event \<Rightarrow> world \<Rightarrow> world" where
  "emit e w = w\<lparr>trace := trace w @ [e]\<rparr>"

definition pd_read_excel :: "string \<Rightarrow> world \<Rightarrow> row list outcome \<times> world" where
  "pd_read_excel path w =
     (case lookup (fs w) path of
        None \<Rightarrow> (Raises (External ''FileNotFoundError''), emit (PdReadExcel path) w)
      | Some f \<Rightarrow>
          (case sheet f of
             None \<Rightarrow> (Raises (External ''read_excel''), emit (PdReadExcel path) w)
           | Some rows \<Rightarrow> (Returns rows, emit (PdReadExcel path) w)))"

text \<open>\<open>try: os.remove(file) ... except: pass\<close>\<close>

definition try_remove :: "string \<Rightarrow> world \<Rightarrow> world" where
  "try_remove path w =
     (case os_remove (fs w) path of
        None \<Rightarrow> emit (OsRemove path) w
      | Some fs' \<Rightarrow> (emit (OsRemove path) w)\<lparr>fs := fs'\<rparr>)"

subsection \<open>read_excel_data\<close>

definition read_excel_data :: "string \<Rightarrow> world \<Rightarrow> row list option \<times> world" where
  "read_excel_data file_path w =
     (case entry (lru w) of
        Some (k, v) \<Rightarrow>
          if k = file_path then (v, w\<lparr>lru := (lru w)\<lparr>hits := Suc (hits (lru w))\<rparr>\<rparr>)
          else
            (case pd_read_excel file_path w of
               (Returns rows, w1) \<Rightarrow>
                 (Some rows, w1\<lparr>lru := \<lparr>entry = Some (file_path, Some rows),
                                       hits = hits (lru w1), misses = Suc (misses (lru w1))\<rparr>\<rparr>)
             | (Raises e, w1) \<Rightarrow>
                 (None, (emit (LogError ''Erro ao ler o arquivo Excel'') w1)
                          \<lparr>lru := \<lparr>entry = Some (file_path, None),
                                   hits = hits (lru w1), misses = Suc (misses (lru w1))\<rparr>\<rparr>))
      | None \<Rightarrow>
          (case pd_read_excel file_path w of
             (Returns rows, w1) \<Rightarrow>
               (Some rows, w1\<lparr>lru := \<lparr>entry = Some (file_path, Some rows),
                                     hits = hits (lru w1), misses = Suc (misses (lru w1))\<rparr>\<rparr>)
           | (Raises e, w1) \<Rightarrow>
               (None, (emit (LogError ''Erro ao ler o arquivo Excel'') w1)
                        \<lparr>lru := \<lparr>entry = Some (file_path, None),
                                 hits = hits (lru w1), misses = Suc (misses (lru w1))\<rparr>\<rparr>)))"

subsection \<open>find_latest_challenge_file\<close>

text \<open>
  The loop over \<open>files\<close>; \<open>check_file\<close> is its body and tells whether the file
  was appended to \<open>valid_files\<close>. \<open>os.path.getsize\<close> and \<open>pd.read_excel\<close> are
  inside the \<open>try\<close>: when either raises, the file is reported and removed. A file of
  size zero takes the \<open>else\<close> branch: a warning, no removal.
\<close>

definition check_file :: "string \<Rightarrow> world \<Rightarrow> bool \<times> world" where
  "check_file file w =
     (case getsize (fs w) file of
        Raises e \<Rightarrow> (False, try_remove file (emit (LogError ''Arquivo invalido'') w))
      | Returns n \<Rightarrow>
          if 0 < n then
            (case pd_read_excel file w of
               (Returns rows, w1) \<Rightarrow> (True, w1)
             | (Raises e, w1) \<Rightarrow>
                 (False, try_remove file (emit (LogError ''Arquivo invalido'') w1)))
          else (False, w))"

fun scan :: "string list \<Rightarrow> string list \<Rightarrow> world \<Rightarrow> string list \<times> world" where
  "scan [] valid_files w = (valid_files, w)"
| "scan (file # files) valid_files w =
     (case check_file file w of
        (True, w1) \<Rightarrow> scan files (valid_files @ [file]) w1
      | (False, w1) \<Rightarrow> scan files valid_files w1)"

text \<open>\<open>max(valid_files, key=os.path.getctime)\<close>: the first of the greatest.\<close>

fun max_by :: "('a \<Rightarrow> nat) \<Rightarrow> 'a \<Rightarrow> 'a list \<Rightarrow> 'a" where
  "max_by key best [] = best"
| "max_by key best (x # xs) = max_by key (if key best < key x then x else best) xs"

definition latest :: "world \<Rightarrow> string list \<Rightarrow> string option" where
  "latest w valid_files =
     (case valid_files of [] \<Rightarrow> None
      | x # xs \<Rightarrow> Some (max_by (getctime (fs w)) x xs))"

text \<open>
  The block on the directly downloaded file; True when it returned \<open>str(direct_file)\<close>.
\<close>

definition check_direct :: "world \<Rightarrow> bool \<times> world" where
  "check_direct w =
     (case lookup (fs w) direct_file of
        None \<Rightarrow> (False, w)
      | Some d \<Rightarrow>
          if 0 < fsize d then
            (case pd_read_excel direct_file w of
               (Returns rows, w1) \<Rightarrow> (True, w1)
             | (Raises e, w1) \<Rightarrow>
                 (False, try_remove direct_file (emit (LogError ''Erro ao ler arquivo direto'') w1)))
          else (False, w))"

definition find_latest_challenge_file :: "world \<Rightarrow> string option \<times> world" where
  "find_latest_challenge_file w =
     (case check_direct w of
        (True, w1) \<Rightarrow> (Some direct_file, w1)
      | (False, w1) \<Rightarrow>
          (case scan (glob (fs w1)) [] w1 of
             (valid_files, w2) \<Rightarrow> (latest w2 valid_files, w2)))"

subsection \<open>process_excel_data\<close>

definition process_excel_data :: "world \<Rightarrow> row list outcome \<times> world" where
  "process_excel_data w =
     (case find_latest_challenge_file w of
        (None, w1) \<Rightarrow> (Raises ExcelFileNotFound, w1)
      | (Some excel_file, w1) \<Rightarrow>
          (case read_excel_data excel_file w1 of
             (None, w2) \<Rightarrow> (Raises ExcelDataUnreadable, w2)
           | (Some [], w2) \<Rightarrow> (Raises ExcelDataUnreadable, w2)
           | (Some (r # rs), w2) \<Rightarrow> (Returns (r # rs), w2)))"

subsection \<open>The environment of a run\<close>

record payload =
  body_size :: nat
  body_sheet :: "row list option"

record env =
  urlopen :: "payload option"
    \<comment> \<open>the body the direct request returns; None: urlopen raises (URLError, HTTPError)\<close>
  now :: nat
    \<comment> \<open>the creation time the file system stamps on the file the direct fetch writes\<close>
  agent_run :: "nat \<Rightarrow> history outcome"
    \<comment> \<open>what awaiting wait_for(agent.run(...)) gives at tick k\<close>
  sleep_cancelled :: "nat \<Rightarrow> bool"
    \<comment> \<open>whether the task is cancelled while it sleeps at tick k\<close>
  disk :: "nat \<Rightarrow> disk_file list \<Rightarrow> disk_file list"
    \<comment> \<open>what others (the browser's download) do to the downloads directory during tick k\<close>
  context_close :: "exn option"
    \<comment> \<open>None: self.context.close() returns; Some e: it raises e\<close>
  browser_close :: "exn option"
  path_exists :: "string \<Rightarrow> bool"
    \<comment> \<open>os.path.exists, asked of the two recording paths\<close>
  summary_write :: "nat \<Rightarrow> exn option"
    \<comment> \<open>what open(self.result_file, "w") and f.write raise, if anything, when the write is
        the call traced at position n\<close>

record runner =
  browser_context :: "nat option"     \<comment> \<open>self.context\<close>
  browser :: "nat option"
  download_agent :: "agent option"
  process_agent :: "agent option"
  run_id :: string
  download_gif_path :: string
  process_gif_path :: string
  result_file :: string

definition tick :: "env \<Rightarrow> world \<Rightarrow> world" where
  "tick env w = w\<lparr>fs := disk env (ticks w) (fs w), ticks := Suc (ticks w)\<rparr>"

definition wait_for_run :: "env \<Rightarrow> agent \<Rightarrow> nat \<Rightarrow> nat \<Rightarrow> world \<Rightarrow> history outcome \<times> world" where
  "wait_for_run env a max_steps timeout w =
     (agent_run env (ticks w), tick env (emit (AgentRun a max_steps timeout) w))"

definition asyncio_sleep :: "env \<Rightarrow> nat \<Rightarrow> world \<Rightarrow> unit outcome \<times> world" where
  "asyncio_sleep env secs w =
     (if sleep_cancelled env (ticks w) then Raises CancelledError else Returns (),
      tick env (emit (Sleep secs) w))"

subsection \<open>close_resources\<close>

text \<open>The two statements of the \<open>try\<close> block, then the block with its handler.\<close>

definition close_context :: "env \<Rightarrow> runner \<Rightarrow> world \<Rightarrow> unit outcome \<times> runner \<times> world" where
  "close_context env self w =
     (case browser_context self of
        None \<Rightarrow> (Returns (), self, w)
      | Some c \<Rightarrow>
          (case context_close env of
             Some e \<Rightarrow> (Raises e, self, emit ContextClose w)
           | None \<Rightarrow> (Returns (), self\<lparr>browser_context := None\<rparr>, emit ContextClose w)))"

definition close_browser :: "env \<Rightarrow> runner \<Rightarrow> world \<Rightarrow> unit outcome \<times> runner \<times> world" where
  "close_browser env self w =
     (case browser self of
        None \<Rightarrow> (Returns (), self, w)
      | Some b \<Rightarrow>
          (case browser_close env of
             Some e \<Rightarrow> (Raises e, self, emit BrowserClose w)
           | None \<Rightarrow> (Returns (), self\<lparr>browser := None\<rparr>, emit BrowserClose w)))"

definition close_resources :: "env \<Rightarrow> runner \<Rightarrow> world \<Rightarrow> unit outcome \<times> runner \<times> world" where
  "close_resources env self w =
     (case (case close_context env self w of
              (Raises e, self1, w1) \<Rightarrow> (Raises e, self1, w1)
            | (Returns u, self1, w1) \<Rightarrow> close_browser env self1 w1) of
        (Raises e, self2, w2) \<Rightarrow>
          if is_Exception e
          then (Returns (), self2, emit (LogError ''Erro ao fechar recursos'') w2)
          else (Raises e, self2, w2)
      | (Returns u, self2, w2) \<Rightarrow> (Returns (), self2, w2))"

subsection \<open>run_download_agent\<close>

definition write_direct :: "env \<Rightarrow> payload \<Rightarrow> world \<Rightarrow> world" where
  "write_direct env b w =
     (emit (FileWrite direct_file) w)
       \<lparr>fs := \<lparr>fname = direct_file, fsize = body_size b, fctime = now env,
               sheet = body_sheet b, locked = False\<rparr>
             # filter (\<lambda>g. fname g \<noteq> direct_file) (fs w)\<rparr>"

text \<open>
  The first \<open>try\<close> block. Its value is \<open>Some\<close> when the function is left from inside
  the block (by \<open>return download_history\<close>, or by an exception that neither handler
  catches) and \<open>None\<close> when control reaches the agent-driven download below it.
  The \<open>await\<close> of the page-check agent stands inside the inner \<open>try\<close>, whose handler
  is \<open>except Exception\<close>.
\<close>

definition direct_download ::
  "env \<Rightarrow> runner \<Rightarrow> world \<Rightarrow> history outcome option \<times> runner \<times> world" where
  "direct_download env self w =
     (case urlopen env of
        None \<Rightarrow> (None, self, emit (LogError ''Erro no download direto'') (emit UrlOpen w))
      | Some excel_content \<Rightarrow>
          (let w1 = write_direct env excel_content (emit UrlOpen w) in
           case lookup (fs w1) direct_file of
             None \<Rightarrow> (None, self, w1)
           | Some f \<Rightarrow>
               if 0 < fsize f then
                 (case pd_read_excel direct_file w1 of
                    (Raises e, w2) \<Rightarrow>
                      (None, self, emit (LogError ''Erro ao validar arquivo Excel'') w2)
                  | (Returns test_df, w2) \<Rightarrow>
                      if 0 < length test_df then
                        (case wait_for_run env PageCheckAgent 5 60 w2 of
                           (Returns download_history, w3) \<Rightarrow>
                             (Some (Returns download_history),
                              self\<lparr>download_agent := Some PageCheckAgent\<rparr>, w3)
                         | (Raises e, w3) \<Rightarrow>
                             if is_Exception e
                             then (None, self\<lparr>download_agent := Some PageCheckAgent\<rparr>,
                                   emit (LogError ''Erro ao validar arquivo Excel'') w3)
                             else (Some (Raises e),
                                   self\<lparr>download_agent := Some PageCheckAgent\<rparr>, w3))
                      else (None, self, w2))
               else (None, self, w1)))"

text \<open>
  \<open>try: await wait_for(agent.run(n), t) except asyncio.TimeoutError: await
  wait_for(agent.run(n), t)\<close>, the block that ends both \<open>run_download_agent\<close> and
  \<open>run_process_agent\<close>.
\<close>

definition run_with_retry ::
  "env \<Rightarrow> agent \<Rightarrow> nat \<Rightarrow> nat \<Rightarrow> world \<Rightarrow> history outcome \<times> world" where
  "run_with_retry env a max_steps timeout w =
     (case wait_for_run env a max_steps timeout w of
        (Returns h, w1) \<Rightarrow> (Returns h, w1)
      | (Raises e, w1) \<Rightarrow>
          if e = TimeoutError then wait_for_run env a max_steps timeout w1
          else (Raises e, w1))"

definition run_download_agent ::
  "env \<Rightarrow> runner \<Rightarrow> world \<Rightarrow> history outcome \<times> runner \<times> world" where
  "run_download_agent env self w =
     (case browser_context self of
        None \<Rightarrow> (Raises ValueError, self, w)
      | Some c \<Rightarrow>
          (case direct_download env self w of
             (Some res, self1, w1) \<Rightarrow> (res, self1, w1)
           | (None, self1, w1) \<Rightarrow>
               (case run_with_retry env DownloadAgent 25 300 w1 of
                  (res, w2) \<Rightarrow> (res, self1\<lparr>download_agent := Some DownloadAgent\<rparr>, w2))))"

subsection \<open>run_process_agent\<close>

definition run_process_agent ::
  "env \<Rightarrow> runner \<Rightarrow> row list \<Rightarrow> world \<Rightarrow> history outcome \<times> runner \<times> world" where
  "run_process_agent env self excel_data w =
     (case browser_context self of
        None \<Rightarrow> (Raises ValueError, self, w)
      | Some c \<Rightarrow>
          (case run_with_retry env (ProcessAgent excel_data) 100 600 w of
             (res, w1) \<Rightarrow> (res, self\<lparr>process_agent := Some (ProcessAgent excel_data)\<rparr>, w1)))"

subsection \<open>run_automation\<close>

text \<open>
  The loop \<open>for attempt in range(5)\<close>: the first argument counts the iterations left,
  the second is the variable \<open>excel_file\<close>, which every iteration overwrites and which is
  what the code after the loop tests.
\<close>

fun poll :: "env \<Rightarrow> nat \<Rightarrow> string option \<Rightarrow> world \<Rightarrow> string option outcome \<times> world" where
  "poll env 0 excel_file w = (Returns excel_file, w)"
| "poll env (Suc n) excel_file w =
     (case find_latest_challenge_file w of
        (None, w1) \<Rightarrow>
          (case asyncio_sleep env 5 w1 of
             (Raises e, w2) \<Rightarrow> (Raises e, w2)
           | (Returns u, w2) \<Rightarrow> poll env n None w2)
      | (Some f, w1) \<Rightarrow>
          (case getsize (fs w1) f of
             Raises e \<Rightarrow> (Raises e, w1)
           | Returns file_size \<Rightarrow>
               if 0 < file_size then
                 (case asyncio_sleep env 2 w1 of
                    (Raises e, w2) \<Rightarrow> (Raises e, w2)
                  | (Returns u, w2) \<Rightarrow>
                      (case getsize (fs w2) f of
                         Raises e \<Rightarrow> (Raises e, w2)
                       | Returns file_size2 \<Rightarrow>
                           if file_size = file_size2 then (Returns (Some f), w2)
                           else
                             (case asyncio_sleep env 5 w2 of
                                (Raises e, w3) \<Rightarrow> (Raises e, w3)
                              | (Returns u, w3) \<Rightarrow> poll env n (Some f) w3)))
               else
                 (case asyncio_sleep env 5 w1 of
                    (Raises e, w2) \<Rightarrow> (Raises e, w2)
                  | (Returns u, w2) \<Rightarrow> poll env n (Some f) w2)))"

record result_record =
  success :: bool
  error :: "exn option"
  r_download_history :: "history option"
  r_process_history :: "history option"
  r_download_gif :: "string option"
  r_process_gif :: "string option"
  r_result_file :: string
  summary :: "line list"

text \<open>
  How the \<open>try\<close> block of \<open>run_automation\<close> is left: by \<open>return\<close>, or by an exception,
  which comes with the local variables the handler reads (\<open>result_lines\<close>,
  \<open>download_history\<close>, \<open>process_history\<close>).
\<close>

datatype body_exit =
    Completed result_record
  | Failed exn "line list" "history option" "history option"

definition gif :: "env \<Rightarrow> string \<Rightarrow> string option" where
  "gif env path = (if path_exists env path then Some path else None)"

text \<open>
  \<open>with open(self.result_file, "w", encoding="utf-8") as f: f.write(...)\<close>. Nothing
  guards it, on either path; when it raises, no summary is on disk.
\<close>

definition write_summary ::
  "env \<Rightarrow> runner \<Rightarrow> line list \<Rightarrow> world \<Rightarrow> exn option \<times> world" where
  "write_summary env self result_lines w =
     (case summary_write env (length (trace w)) of
        Some e \<Rightarrow> (Some e, emit (SummaryWrite (result_file self)) w)
      | None \<Rightarrow>
          (None, (emit (SummaryWrite (result_file self)) w)
                   \<lparr>summaries := (summaries w)(result_file self \<mapsto> result_lines)\<rparr>))"

text \<open>
  \<open>if on_done_callback: on_done_callback({...})\<close>. The callback is the caller's
  function of the record; \<open>Some e\<close> is the exception it raises.
\<close>

definition call_back ::
  "(result_record \<Rightarrow> exn option) option \<Rightarrow> result_record \<Rightarrow> world \<Rightarrow> exn option \<times> world" where
  "call_back on_done_callback r w =
     (case on_done_callback of
        None \<Rightarrow> (None, w)
      | Some f \<Rightarrow> (f r, emit (DoneCallback (success r)) w))"

text \<open>
  The two statements that end both paths: the summary is written, then the callback
  is called with the record.
\<close>

definition report ::
  "env \<Rightarrow> (result_record \<Rightarrow> exn option) option \<Rightarrow> runner \<Rightarrow> result_record \<Rightarrow> world
     \<Rightarrow> exn option \<times> world" where
  "report env on_done_callback self r w =
     (case write_summary env self (summary r) w of
        (Some e, w1) \<Rightarrow> (Some e, w1)
      | (None, w1) \<Rightarrow> call_back on_done_callback r w1)"

text \<open>Lines 509 to 543: the fetch phase, then the wait for a stable file.\<close>

definition acquire :: "env \<Rightarrow> runner \<Rightarrow> world \<Rightarrow> (body_exit + history) \<times> runner \<times> world" where
  "acquire env self w =
     (case run_download_agent env self w of
        (Raises e, self1, w1) \<Rightarrow> (Inl (Failed e [] None None), self1, w1)
      | (Returns download_history, self1, w1) \<Rightarrow>
          if \<not> is_done download_history then
            (Inl (Failed (DownloadFailed (errors download_history))
                    [Msg (DownloadFailed (errors download_history))]
                    (Some download_history) None), self1, w1)
          else
            (case asyncio_sleep env 10 w1 of
               (Raises e, w2) \<Rightarrow> (Inl (Failed e [] (Some download_history) None), self1, w2)
             | (Returns u, w2) \<Rightarrow>
                 (case poll env 5 None w2 of
                    (Raises e, w3) \<Rightarrow>
                      (Inl (Failed e [] (Some download_history) None), self1, w3)
                  | (Returns None, w3) \<Rightarrow>
                      (Inl (Failed ArtifactNotFound [Msg ArtifactNotFound]
                              (Some download_history) None), self1, w3)
                  | (Returns (Some excel_file), w3) \<Rightarrow> (Inr download_history, self1, w3))))"

text \<open>Lines 545 to 589: parse, submission phase, summary.\<close>

definition submit ::
  "env \<Rightarrow> (result_record \<Rightarrow> exn option) option \<Rightarrow> history \<Rightarrow> runner \<Rightarrow> world
     \<Rightarrow> body_exit \<times> runner \<times> world" where
  "submit env on_done_callback download_history self w =
     (case process_excel_data w of
        (Raises e, w1) \<Rightarrow> (Failed e [] (Some download_history) None, self, w1)
      | (Returns excel_data, w1) \<Rightarrow>
          (case run_process_agent env self excel_data w1 of
             (Raises e, self1, w2) \<Rightarrow> (Failed e [] (Some download_history) None, self1, w2)
           | (Returns process_history, self1, w2) \<Rightarrow>
               if \<not> is_done process_history then
                 (Failed (ProcessFailed (errors process_history))
                    [Msg (ProcessFailed (errors process_history))]
                    (Some download_history) (Some process_history), self1, w2)
               else
                 (let result_lines =
                        [FinalSummary, AgentSection ''Download Agent'' download_history,
                         AgentSection ''Process Agent'' process_history];
                      r = \<lparr>success = True, error = None,
                           r_download_history = Some download_history,
                           r_process_history = Some process_history,
                           r_download_gif = gif env (download_gif_path self1),
                           r_process_gif = gif env (process_gif_path self1),
                           r_result_file = result_file self1,
                           summary = result_lines\<rparr>
                  in case report env on_done_callback self1 r w2 of
                       (Some e, w3) \<Rightarrow>
                         (Failed e result_lines (Some download_history) (Some process_history),
                          self1, w3)
                     | (None, w3) \<Rightarrow> (Completed r, self1, w3))))"

definition run_automation_try ::
  "env \<Rightarrow> (result_record \<Rightarrow> exn option) option \<Rightarrow> runner \<Rightarrow> world
     \<Rightarrow> body_exit \<times> runner \<times> world" where
  "run_automation_try env on_done_callback self w =
     (case acquire env self w of
        (Inl failed, self1, w1) \<Rightarrow> (failed, self1, w1)
      | (Inr download_history, self1, w1) \<Rightarrow> submit env on_done_callback download_history self1 w1)"

text \<open>
  The \<open>try\<close> block with its handler \<open>except Exception as e\<close>. What the summary write
  or the callback raises inside the handler leaves the handler.
\<close>

definition run_automation_guarded ::
  "env \<Rightarrow> (result_record \<Rightarrow> exn option) option \<Rightarrow> runner \<Rightarrow> world
     \<Rightarrow> result_record outcome \<times> runner \<times> world" where
  "run_automation_guarded env on_done_callback self w =
     (case run_automation_try env on_done_callback self w of
        (Completed r, self1, w1) \<Rightarrow> (Returns r, self1, w1)
      | (Failed e result_lines download_history process_history, self1, w1) \<Rightarrow>
          if is_Exception e then
            (let r = \<lparr>success = False, error = Some e,
                      r_download_history = download_history,
                      r_process_history = process_history,
                      r_download_gif = gif env (download_gif_path self1),
                      r_process_gif = gif env (process_gif_path self1),
                      r_result_file = result_file self1,
                      summary = result_lines @ [RunError e]\<rparr>
             in case report env on_done_callback self1 r
                       (emit (LogError ''Erro durante a execucao do RPA Challenge'') w1) of
                  (Some x, w2) \<Rightarrow> (Raises x, self1, w2)
                | (None, w2) \<Rightarrow> (Returns r, self1, w2))
          else (Raises e, self1, w1))"

text \<open>
  With \<open>finally: await self.close_resources()\<close>: an exception that leaves the
  \<open>finally\<close> block replaces the pending return value or exception.
\<close>

definition run_automation ::
  "env \<Rightarrow> (result_record \<Rightarrow> exn option) option \<Rightarrow> runner \<Rightarrow> world
     \<Rightarrow> result_record outcome \<times> runner \<times> world" where
  "run_automation env on_done_callback self w =
     (case run_automation_guarded env on_done_callback self w of
        (res, self1, w1) \<Rightarrow>
          (case close_resources env self1 w1 of
             (Raises e, self2, w2) \<Rightarrow> (Raises e, self2, w2)
           | (Returns u, self2, w2) \<Rightarrow> (res, self2, w2)))"

subsection \<open>Notions the statements use\<close>

text \<open>
  A file is valid when it is not empty and \<open>pd.read_excel\<close> reads it; a valid candidate
  also matches the pattern. A name is doomed when the loop of
  \<open>find_latest_challenge_file\<close> would delete it: not empty, unreadable, and
  \<open>os.remove\<close> succeeds.
\<close>

definition valid :: "disk_file \<Rightarrow> bool" where
  "valid f = (0 < fsize f \<and> sheet f \<noteq> None)"

definition valid_name :: "disk_file list \<Rightarrow> string \<Rightarrow> bool" where
  "valid_name fl n = (case lookup fl n of None \<Rightarrow> False | Some f \<Rightarrow> valid f)"

definition valid_candidate :: "disk_file \<Rightarrow> bool" where
  "valid_candidate f = (glob_match (fname f) \<and> valid f)"

definition doomed :: "disk_file list \<Rightarrow> string \<Rightarrow> bool" where
  "doomed fl n =
     (case lookup fl n of None \<Rightarrow> False
      | Some f \<Rightarrow> 0 < fsize f \<and> sheet f = None \<and> \<not> locked f)"

text \<open>What reading the path from the directory gives now.\<close>

definition on_disk :: "disk_file list \<Rightarrow> string \<Rightarrow> row list option" where
  "on_disk fl p = (case lookup fl p of None \<Rightarrow> None | Some f \<Rightarrow> sheet f)"

definition hit :: "world \<Rightarrow> world" where
  "hit w = w\<lparr>lru := (lru w)\<lparr>hits := Suc (hits (lru w))\<rparr>\<rparr>"

text \<open>
  The release step meets no cancellation: whatever \<open>close()\<close> raises is an
  \<open>Exception\<close>.
\<close>

definition release_ordinary :: "env \<Rightarrow> bool" where
  "release_ordinary env =
     ((case context_close env of None \<Rightarrow> True | Some e \<Rightarrow> is_Exception e)
      \<and> (case browser_close env of None \<Rightarrow> True | Some e \<Rightarrow> is_Exception e))"

text \<open>How often an agent was started, read off the trace.\<close>

fun is_run_of :: "agent \<Rightarrow> event \<Rightarrow> bool" where
  "is_run_of a (AgentRun b n t) = (a = b)"
| "is_run_of a _ = False"

definition invocations :: "agent \<Rightarrow> event list \<Rightarrow> nat" where
  "invocations a tr = length (filter (is_run_of a) tr)"

text \<open>
  The direct fetch succeeds validation: a body arrives, the file written from it is not
  empty, and it parses with more than zero records.
\<close>

definition direct_valid :: "env \<Rightarrow> bool" where
  "direct_valid env =
     (case urlopen env of None \<Rightarrow> False
      | Some b \<Rightarrow> 0 < body_size b \<and> (case body_sheet b of None \<Rightarrow> False | Some rows \<Rightarrow> rows \<noteq> []))"


text \<open>The two records \<open>run_automation\<close> builds.\<close>

definition success_record :: "env \<Rightarrow> runner \<Rightarrow> history \<Rightarrow> history \<Rightarrow> result_record" where
  "success_record env self dh ph =
     \<lparr>success = True, error = None, r_download_history = Some dh,
      r_process_history = Some ph,
      r_download_gif = gif env (download_gif_path self),
      r_process_gif = gif env (process_gif_path self),
      r_result_file = result_file self,
      summary = [FinalSummary, AgentSection ''Download Agent'' dh,
                 AgentSection ''Process Agent'' ph]\<rparr>"

definition failure_record ::
  "env \<Rightarrow> runner \<Rightarrow> exn \<Rightarrow> line list \<Rightarrow> history option \<Rightarrow> history option \<Rightarrow> result_record" where
  "failure_record env self e ls dh ph =
     \<lparr>success = False, error = Some e, r_download_history = dh,
      r_process_history = ph,
      r_download_gif = gif env (download_gif_path self),
      r_process_gif = gif env (process_gif_path self),
      r_result_file = result_file self,
      summary = ls @ [RunError e]\<rparr>"

text \<open>No write of the summary raises; the callback, if there is one, never raises.\<close>

definition writes_succeed :: "env \<Rightarrow> bool" where
  "writes_succeed env = (\<forall>n. summary_write env n = None)"

definition callback_returns :: "(result_record \<Rightarrow> exn option) option \<Rightarrow> bool" where
  "callback_returns on_done_callback =
     (case on_done_callback of None \<Rightarrow> True | Some f \<Rightarrow> \<forall>r. f r = None)"


subsection \<open>Example inputs\<close>

definition rows2 :: "row list" where
  "rows2 = [[(''First Name'', ''Ana'')], [(''First Name'', ''Bo'')]]"

definition mk_world :: "disk_file list \<Rightarrow> world" where
  "mk_world fl = \<lparr>fs = fl, lru = \<lparr>entry = None, hits = 0, misses = 0\<rparr>,
                 summaries = Map.empty, ticks = 0, trace = []\<rparr>"

definition direct_older :: disk_file where
  "direct_older = \<lparr>fname = ''challenge_direct.xlsx'', fsize = 100, fctime = 1,
                    sheet = Some rows2, locked = False\<rparr>"

definition agent_newer :: disk_file where
  "agent_newer = \<lparr>fname = ''challenge.xlsx'', fsize = 100, fctime = 7,
                   sheet = Some rows2, locked = False\<rparr>"

definition agent_newest :: disk_file where
  "agent_newest = \<lparr>fname = ''challenge (1).xlsx'', fsize = 100, fctime = 9,
                    sheet = Some rows2, locked = False\<rparr>"

definition corrupt_file :: disk_file where
  "corrupt_file = \<lparr>fname = ''old_challenge.xlsx'', fsize = 20, fctime = 3,
                    sheet = None, locked = False\<rparr>"

definition empty_file :: disk_file where
  "empty_file = \<lparr>fname = ''challenge.xlsx'', fsize = 0, fctime = 3,
                  sheet = None, locked = False\<rparr>"

definition other_file :: disk_file where
  "other_file = \<lparr>fname = ''notes.txt'', fsize = 20, fctime = 3,
                  sheet = None, locked = False\<rparr>"

definition scope_direct_older :: world where
  "scope_direct_older = mk_world [direct_older, agent_newer]"

definition scope_agent_files :: world where
  "scope_agent_files = mk_world [agent_newer, corrupt_file, agent_newest]"

definition scope_corrupt :: world where
  "scope_corrupt = mk_world [corrupt_file, other_file]"

definition scope_empty_file :: world where
  "scope_empty_file = mk_world [empty_file]"

definition after_miss :: world where
  "after_miss = snd (read_excel_data ''challenge.xlsx'' (mk_world []))"

definition file_arrived :: world where
  "file_arrived = after_miss\<lparr>fs := [agent_newer]\<rparr>"

definition other_parsed :: world where
  "other_parsed = snd (read_excel_data ''challenge (1).xlsx'' file_arrived)"

text \<open>Runners and environments.\<close>

definition ok_history :: history where
  "ok_history = \<lparr>is_done = True, errors = []\<rparr>"

definition runner_A :: runner where
  "runner_A = \<lparr>browser_context = Some 1, browser = Some 1, download_agent = None,
     process_agent = None, run_id = ''run-A'',
     download_gif_path = ''download_agent_A.gif'', process_gif_path = ''process_agent_A.gif'',
     result_file = ''resultados_A.txt''\<rparr>"

definition runner_B :: runner where
  "runner_B = \<lparr>browser_context = Some 2, browser = Some 2, download_agent = None,
     process_agent = None, run_id = ''run-B'',
     download_gif_path = ''download_agent_B.gif'', process_gif_path = ''process_agent_B.gif'',
     result_file = ''resultados_B.txt''\<rparr>"

text \<open>The direct fetch succeeds, every agent run completes, nothing fails.\<close>

definition quiet :: env where
  "quiet = \<lparr>urlopen = Some \<lparr>body_size = 100, body_sheet = Some rows2\<rparr>, now = 10,
     agent_run = (\<lambda>k. Returns ok_history), sleep_cancelled = (\<lambda>k. False),
     disk = (\<lambda>k fl. fl), context_close = None, browser_close = None,
     path_exists = (\<lambda>p. False), summary_write = (\<lambda>n. None)\<rparr>"

text \<open>The direct fetch fails; the download agent's first run (tick 0) leaves \<open>challenge.xlsx\<close>.\<close>

definition offline :: env where
  "offline = quiet\<lparr>urlopen := None, disk := (\<lambda>k fl. if k = 0 then fl @ [agent_newer] else fl)\<rparr>"

definition page_check_timeout :: env where
  "page_check_timeout =
     quiet\<lparr>agent_run := (\<lambda>k. if k = 0 then Raises TimeoutError else Returns ok_history)\<rparr>"

definition retry_once :: env where
  "retry_once =
     offline\<lparr>agent_run := (\<lambda>k. if k = 0 then Raises TimeoutError else Returns ok_history)\<rparr>"

definition retry_twice :: env where
  "retry_twice = offline\<lparr>agent_run := (\<lambda>k. Raises TimeoutError)\<rparr>"

text \<open>The page check (tick 0) completes; the submission agent times out (ticks 3 and 4).\<close>

definition submit_timeout :: env where
  "submit_timeout =
     quiet\<lparr>agent_run := (\<lambda>k. if k = 0 then Returns ok_history else Raises TimeoutError)\<rparr>"





text \<open>The download agent times out twice; then the handler cannot write the summary.\<close>

definition write_fails :: env where
  "write_fails = retry_twice\<lparr>summary_write := (\<lambda>n. Some (External ''PermissionError''))\<rparr>"

text \<open>The download agent times out twice; then the release is cancelled.\<close>

definition timeouts_then_cancelled :: env where
  "timeouts_then_cancelled = retry_twice\<lparr>context_close := Some CancelledError\<rparr>"

text \<open>
  The page check (tick 0) completes; the submission agent times out once (tick 3) and
  then completes (tick 4).
\<close>

definition submit_retry_once :: env where
  "submit_retry_once =
     quiet\<lparr>agent_run := (\<lambda>k. if k = 3 then Raises TimeoutError else Returns ok_history)\<rparr>"

text \<open>A callback that returns, and one that raises.\<close>

definition silent_callback :: "(result_record \<Rightarrow> exn option) option" where
  "silent_callback = Some (\<lambda>r. None)"


text \<open>The file the download agent leaves at tick 0 grows during every later tick.\<close>

definition growing :: env where
  "growing = quiet\<lparr>urlopen := None,
     disk := (\<lambda>k fl. if k = 0 then fl @ [agent_newer]
                      else map (\<lambda>f. f\<lparr>fsize := fsize f + 1\<rparr>) fl)\<rparr>"

definition rows_B :: "row list" where
  "rows_B = [[(''First Name'', ''Cy'')]]"

definition second_fetch :: env where
  "second_fetch = quiet\<lparr>urlopen := Some \<lparr>body_size = 50, body_sheet = Some rows_B\<rparr>, now := 20\<rparr>"

definition world_after_A :: world where
  "world_after_A = snd (snd (run_automation quiet None runner_A (mk_world [])))"

section \<open>Properties\<close>

lemmas ex_defs = scope_direct_older_def scope_agent_files_def scope_corrupt_def
  scope_empty_file_def mk_world_def direct_older_def agent_newer_def agent_newest_def
  corrupt_file_def empty_file_def other_file_def rows2_def direct_file_def

lemmas eval_defs = find_latest_challenge_file_def check_direct_def lookup_def
  pd_read_excel_def glob_def glob_match_def check_file_def getsize_def latest_def
  getctime_def try_remove_def os_remove_def emit_def valid_def valid_name_def
  valid_candidate_def

lemmas cache_defs = after_miss_def file_arrived_def other_parsed_def read_excel_data_def
  on_disk_def

subsection \<open>The directory\<close>

lemma lookup_filter_other:
  "n \<noteq> m \<Longrightarrow> lookup (filter (\<lambda>g. fname g \<noteq> m) fl) n = lookup fl n"
  by (induction fl) (auto simp: lookup_def)

lemma lookup_filter_same: "lookup (filter (\<lambda>g. fname g \<noteq> m) fl) m = None"
  by (induction fl) (auto simp: lookup_def)

lemma lookup_Some_mem: "lookup fl n = Some f \<Longrightarrow> f \<in> set fl \<and> fname f = n"
  by (induction fl) (auto simp: lookup_def split: if_splits)

lemma lookup_distinct:
  "distinct (map fname fl) \<Longrightarrow> f \<in> set fl \<Longrightarrow> lookup fl (fname f) = Some f"
  by (induction fl) (auto simp: lookup_def)

lemma lookup_None_iff: "lookup fl n = None \<longleftrightarrow> n \<notin> fname ` set fl"
  by (induction fl) (auto simp: lookup_def)

lemma fs_emit [simp]: "fs (emit e w) = fs w"
  by (simp add: emit_def)

lemma fs_pd_read_excel [simp]: "fs (snd (pd_read_excel p w)) = fs w"
  by (simp add: pd_read_excel_def split: option.splits)

lemma fst_pd_read_excel:
  "fst (pd_read_excel p w) =
     (case lookup (fs w) p of None \<Rightarrow> Raises (External ''FileNotFoundError'')
      | Some f \<Rightarrow> (case sheet f of None \<Rightarrow> Raises (External ''read_excel'') | Some rows \<Rightarrow> Returns rows))"
  by (simp add: pd_read_excel_def split: option.splits)


lemma fs_try_remove:
  "fs (try_remove m w) =
     (case lookup (fs w) m of None \<Rightarrow> fs w
      | Some f \<Rightarrow> if locked f then fs w else filter (\<lambda>g. fname g \<noteq> m) (fs w))"
  by (simp add: try_remove_def os_remove_def split: option.splits)

lemma valid_name_filter_invalid:
  "\<not> valid_name fl m \<Longrightarrow> valid_name (filter (\<lambda>g. fname g \<noteq> m) fl) = valid_name fl"
proof (rule ext)
  fix n
  assume nv: "\<not> valid_name fl m"
  show "valid_name (filter (\<lambda>g. fname g \<noteq> m) fl) n = valid_name fl n"
  proof (cases "n = m")
    case True
    with nv show ?thesis by (simp add: valid_name_def lookup_filter_same)
  next
    case False
    then show ?thesis by (simp add: valid_name_def lookup_filter_other)
  qed
qed

lemma valid_name_try_remove:
  "\<not> valid_name (fs w) m \<Longrightarrow> valid_name (fs (try_remove m w)) = valid_name (fs w)"
  by (simp add: fs_try_remove valid_name_filter_invalid split: option.splits)

lemma doomed_filter_other:
  "n \<noteq> m \<Longrightarrow> doomed (filter (\<lambda>g. fname g \<noteq> m) fl) n = doomed fl n"
  by (simp add: doomed_def lookup_filter_other)

lemma doomed_filter_imp:
  "doomed (filter (\<lambda>g. fname g \<noteq> m) fl) n \<Longrightarrow> doomed fl n"
  by (cases "n = m") (simp_all add: doomed_filter_other, simp add: doomed_def lookup_filter_same)

lemma doomed_not_valid: "doomed fl n \<Longrightarrow> \<not> valid_name fl n"
  by (auto simp: doomed_def valid_name_def valid_def split: option.splits)

lemma fst_check_file: "fst (check_file m w) = valid_name (fs w) m"
  by (simp add: check_file_def getsize_def pd_read_excel_def valid_name_def valid_def
      split: option.splits)

lemma fs_check_file:
  "fs (snd (check_file m w)) =
     (if doomed (fs w) m then filter (\<lambda>g. fname g \<noteq> m) (fs w) else fs w)"
  by (simp add: check_file_def getsize_def pd_read_excel_def fs_try_remove doomed_def
      split: option.splits)

lemma scan_Cons:
  "scan (m # files) acc w =
     scan files (if valid_name (fs w) m then acc @ [m] else acc) (snd (check_file m w))"
  using fst_check_file [of m w] by (cases "check_file m w") auto

lemma valid_name_check_file: "valid_name (fs (snd (check_file m w))) = valid_name (fs w)"
  by (simp add: fs_check_file valid_name_filter_invalid doomed_not_valid)

lemma scan_fst: "fst (scan files acc w) = acc @ filter (valid_name (fs w)) files"
proof (induction files arbitrary: acc w)
  case Nil
  show ?case by simp
next
  case (Cons m files)
  show ?case
    by (simp only: scan_Cons Cons.IH valid_name_check_file) simp
qed

lemma scan_fs:
  "fs (snd (scan files acc w)) =
     filter (\<lambda>f. \<not> (fname f \<in> set files \<and> doomed (fs w) (fname f))) (fs w)"
proof (induction files arbitrary: acc w)
  case Nil
  show ?case by simp
next
  case (Cons m files)
  let ?w1 = "snd (check_file m w)"
  have ih: "fs (snd (scan (m # files) acc w)) =
      filter (\<lambda>f. \<not> (fname f \<in> set files \<and> doomed (fs ?w1) (fname f))) (fs ?w1)"
    by (simp only: scan_Cons Cons.IH)
  show ?case
  proof (cases "doomed (fs w) m")
    case False
    then have "fs ?w1 = fs w" by (simp add: fs_check_file)
    with ih False show ?thesis
      by (auto intro: filter_cong)
  next
    case True
    then have e: "fs ?w1 = filter (\<lambda>g. fname g \<noteq> m) (fs w)" by (simp add: fs_check_file)
    show ?thesis
      unfolding ih e filter_filter
      using True by (auto intro!: filter_cong simp: doomed_filter_other dest: doomed_filter_imp)
  qed
qed

lemma max_by_mem: "max_by key x xs \<in> set (x # xs)"
  by (induction xs arbitrary: x) (auto split: if_splits)

lemma max_by_ge: "y \<in> set (x # xs) \<Longrightarrow> key y \<le> key (max_by key x xs)"
proof (induction xs arbitrary: x y)
  case Nil
  then show ?case by simp
next
  case (Cons a xs)
  let ?b = "if key x < key a then a else x"
  have b: "key ?b \<le> key (max_by key ?b xs)"
    using Cons.IH [where x = ?b and y = ?b] by simp
  from Cons.prems consider "y = x" | "y = a" | "y \<in> set xs" by auto
  then show ?case
  proof cases
    case 1
    have "key x \<le> key ?b" by simp
    with b 1 show ?thesis by simp
  next
    case 2
    have "key a \<le> key ?b" by simp
    with b 2 show ?thesis by simp
  next
    case 3
    then show ?thesis using Cons.IH [where x = ?b and y = y] by simp
  qed
qed

lemma lookup_filter_keep:
  "(\<And>f. f \<in> set fl \<Longrightarrow> fname f = n \<Longrightarrow> P f) \<Longrightarrow> lookup (filter P fl) n = lookup fl n"
  by (induction fl) (auto simp: lookup_def)

lemma scan_lookup:
  assumes "valid_name (fs w) n"
  shows "lookup (fs (snd (scan files acc w))) n = lookup (fs w) n"
  unfolding scan_fs
  using assms by (intro lookup_filter_keep) (auto dest: doomed_not_valid)

lemma glob_match_direct_file: "glob_match direct_file"
  by (simp add: glob_match_def direct_file_def)

lemma set_glob: "set (glob fl) = {n. \<exists>f\<in>set fl. fname f = n \<and> glob_match n}"
  by (auto simp: glob_def)

lemma scan_latest:
  assumes d: "distinct (map fname (fs w))"
    and g: "g \<in> set (fs w)" "valid_candidate g"
    and sc: "scan (glob (fs w)) [] w = (vs, w3)"
  shows "\<exists>f\<in>set (fs w). valid_candidate f \<and> latest w3 vs = Some (fname f)
           \<and> (\<forall>h\<in>set (fs w). valid_candidate h \<longrightarrow> fctime h \<le> fctime f)"
proof -
  have vs: "vs = filter (valid_name (fs w)) (glob (fs w))"
    using scan_fst [of "glob (fs w)" "[]" w] sc by simp
  have w3: "w3 = snd (scan (glob (fs w)) [] w)" using sc by simp
  have cand: "fname h \<in> set vs" if "h \<in> set (fs w)" "valid_candidate h" for h
    using that d by (auto simp: vs set_glob valid_candidate_def valid_name_def lookup_distinct)
  have key: "getctime (fs w3) n = getctime (fs w) n" if "n \<in> set vs" for n
    using that by (simp add: vs w3 getctime_def scan_lookup)
  from cand [OF g] obtain x xs where xxs: "vs = x # xs" by (cases vs) auto
  let ?m = "max_by (getctime (fs w3)) x xs"
  have m: "?m \<in> set vs" using max_by_mem [of "getctime (fs w3)" x xs] xxs by simp
  then have "valid_name (fs w) ?m" and gm: "?m \<in> set (glob (fs w))" by (simp_all add: vs)
  then obtain f where f: "lookup (fs w) ?m = Some f" "valid f"
    by (auto simp: valid_name_def split: option.splits)
  then have fm: "f \<in> set (fs w)" "fname f = ?m" using lookup_Some_mem by blast+
  have vc: "valid_candidate f" using f fm gm by (auto simp: valid_candidate_def set_glob)
  have "fctime h \<le> fctime f" if h: "h \<in> set (fs w)" "valid_candidate h" for h
  proof -
    have hv: "fname h \<in> set vs" by (rule cand [OF h])
    then have "getctime (fs w3) (fname h) \<le> getctime (fs w3) ?m"
      using max_by_ge [of "fname h" x xs "getctime (fs w3)"] xxs by simp
    then have "getctime (fs w) (fname h) \<le> getctime (fs w) ?m"
      using key [OF hv] key [OF m] by simp
    then show ?thesis
      using f d h by (simp add: getctime_def lookup_distinct)
  qed
  moreover have "latest w3 vs = Some (fname f)" using xxs fm by (simp add: latest_def)
  ultimately show ?thesis using fm vc by blast
qed

subsection \<open>find_latest_challenge_file\<close>

lemma fst_check_direct: "fst (check_direct w) = valid_name (fs w) direct_file"
  by (simp add: check_direct_def pd_read_excel_def valid_name_def valid_def
      split: option.splits)

lemma fs_check_direct:
  "fs (snd (check_direct w)) =
     (if doomed (fs w) direct_file then filter (\<lambda>g. fname g \<noteq> direct_file) (fs w) else fs w)"
  by (simp add: check_direct_def pd_read_excel_def fs_try_remove doomed_def
      split: option.splits)

lemma set_fs_check_direct: "set (fs (snd (check_direct w))) \<subseteq> set (fs w)"
  by (auto simp: fs_check_direct)

lemma find_latest_direct:
  "valid_name (fs w) direct_file \<Longrightarrow> fst (find_latest_challenge_file w) = Some direct_file"
  using fst_check_direct [of w]
  by (cases "check_direct w") (auto simp: find_latest_challenge_file_def)

lemma find_latest_scan:
  "\<not> valid_name (fs w) direct_file \<Longrightarrow>
   find_latest_challenge_file w =
     (latest (snd (scan (glob (fs (snd (check_direct w)))) [] (snd (check_direct w))))
        (fst (scan (glob (fs (snd (check_direct w)))) [] (snd (check_direct w)))),
      snd (scan (glob (fs (snd (check_direct w)))) [] (snd (check_direct w))))"
  using fst_check_direct [of w]
  by (cases "check_direct w") (auto simp: find_latest_challenge_file_def split: prod.splits)

lemma find_latest_newest:
  assumes d: "distinct (map fname (fs w))"
    and nd: "\<not> valid_name (fs w) direct_file"
    and g: "g \<in> set (fs w)" "valid_candidate g"
  shows "\<exists>f\<in>set (fs w). valid_candidate f
           \<and> fst (find_latest_challenge_file w) = Some (fname f)
           \<and> (\<forall>h\<in>set (fs w). valid_candidate h \<longrightarrow> fctime h \<le> fctime f)"
proof -
  let ?w1 = "snd (check_direct w)"
  have keep: "h \<in> set (fs ?w1)" if h: "h \<in> set (fs w)" "valid_candidate h" for h
  proof -
    have "fname h \<noteq> direct_file"
    proof
      assume "fname h = direct_file"
      then have "lookup (fs w) direct_file = Some h" using d h lookup_distinct by fastforce
      with nd h show False by (simp add: valid_name_def valid_candidate_def)
    qed
    with h show ?thesis by (simp add: fs_check_direct)
  qed
  have d1: "distinct (map fname (fs ?w1))"
    using d by (simp add: fs_check_direct distinct_map_filter)
  obtain vs w3 where sc: "scan (glob (fs ?w1)) [] ?w1 = (vs, w3)" by fastforce
  from scan_latest [OF d1 keep [OF g] g(2) sc]
  obtain f where f: "f \<in> set (fs ?w1)" "valid_candidate f" "latest w3 vs = Some (fname f)"
    "\<forall>h\<in>set (fs ?w1). valid_candidate h \<longrightarrow> fctime h \<le> fctime f" by blast
  have "fst (find_latest_challenge_file w) = Some (fname f)"
    using find_latest_scan [OF nd] sc f(3) by simp
  moreover have "f \<in> set (fs w)" using f(1) set_fs_check_direct by blast
  moreover have "\<forall>h\<in>set (fs w). valid_candidate h \<longrightarrow> fctime h \<le> fctime f"
    using f(4) keep by blast
  ultimately show ?thesis using f(2) by blast
qed

lemma find_latest_absent:
  assumes inv: "\<forall>f\<in>set (fs w). glob_match (fname f) \<longrightarrow> \<not> valid f"
  shows "fst (find_latest_challenge_file w) = None"
proof -
  let ?w1 = "snd (check_direct w)"
  have nv: "\<not> valid_name fl n" if "set fl \<subseteq> set (fs w)" "glob_match n" for fl n
  proof
    assume "valid_name fl n"
    then obtain f where "lookup fl n = Some f" "valid f"
      by (auto simp: valid_name_def split: option.splits)
    then show False using that inv lookup_Some_mem by blast
  qed
  have nd: "\<not> valid_name (fs w) direct_file"
    by (rule nv) (simp_all add: glob_match_direct_file)
  have "filter (valid_name (fs ?w1)) (glob (fs ?w1)) = []"
    using nv [OF set_fs_check_direct] by (auto simp: filter_empty_conv set_glob)
  then have "fst (scan (glob (fs ?w1)) [] ?w1) = []" by (simp add: scan_fst)
  then show ?thesis using find_latest_scan [OF nd] by (simp add: latest_def)
qed

lemma find_latest_prunes:
  assumes inv: "\<forall>f\<in>set (fs w). glob_match (fname f) \<longrightarrow> 0 < fsize f \<and> sheet f = None \<and> \<not> locked f"
  shows "\<forall>f\<in>set (fs (snd (find_latest_challenge_file w))). \<not> glob_match (fname f)"
proof
  let ?w1 = "snd (check_direct w)"
  fix f assume f: "f \<in> set (fs (snd (find_latest_challenge_file w)))"
  have nd: "\<not> valid_name (fs w) direct_file"
  proof
    assume "valid_name (fs w) direct_file"
    then obtain d where "lookup (fs w) direct_file = Some d" "valid d"
      by (auto simp: valid_name_def split: option.splits)
    then show False using inv lookup_Some_mem glob_match_direct_file
      by (fastforce simp: valid_def)
  qed
  from f have mem: "f \<in> set (fs ?w1)"
    and nx: "\<not> (fname f \<in> set (glob (fs ?w1)) \<and> doomed (fs ?w1) (fname f))"
    by (simp_all add: find_latest_scan [OF nd] scan_fs)
  show "\<not> glob_match (fname f)"
  proof
    assume gm: "glob_match (fname f)"
    with mem have "fname f \<in> set (glob (fs ?w1))" by (auto simp: set_glob)
    moreover have "doomed (fs ?w1) (fname f)"
    proof -
      obtain f' where f': "lookup (fs ?w1) (fname f) = Some f'"
        using mem lookup_None_iff [of "fs ?w1" "fname f"] by (cases "lookup (fs ?w1) (fname f)") auto
      then have "f' \<in> set (fs w)" "fname f' = fname f"
        using lookup_Some_mem set_fs_check_direct by blast+
      with gm inv f' show ?thesis by (simp add: doomed_def)
    qed
    ultimately show False using nx by simp
  qed
qed

text \<open>
  Claim C6, as amended. In a directory with one entry per name:
  when the directly downloaded file \<open>challenge_direct.xlsx\<close> is valid, the locator
  returns it, whatever the creation times of the other candidates are; when it is not
  valid and some valid candidate exists, the locator returns a valid candidate whose
  creation time is the latest among the valid candidates.
\<close>

theorem find_latest_direct_first_then_newest:
  assumes "distinct (map fname (fs w))"
  shows "(valid_name (fs w) direct_file \<longrightarrow> fst (find_latest_challenge_file w) = Some direct_file)
     \<and> (\<not> valid_name (fs w) direct_file \<and> (\<exists>g\<in>set (fs w). valid_candidate g) \<longrightarrow>
          (\<exists>f\<in>set (fs w). valid_candidate f
              \<and> fst (find_latest_challenge_file w) = Some (fname f)
              \<and> (\<forall>h\<in>set (fs w). valid_candidate h \<longrightarrow> fctime h \<le> fctime f)))"
  using assms find_latest_direct find_latest_newest by blast

text \<open>
  The theorem at two directories: one with a valid direct file, one without a direct
  file and with two valid candidates and a corrupt one.
\<close>

theorem find_latest_direct_first_then_newest_witness:
  "fst (find_latest_challenge_file scope_direct_older) = Some direct_file
   \<and> fst (find_latest_challenge_file scope_agent_files) = Some (fname agent_newest)"
proof -
  have d1: "distinct (map fname (fs scope_direct_older))" by (simp add: ex_defs)
  have v1: "valid_name (fs scope_direct_older) direct_file" by (simp add: ex_defs eval_defs)
  have d2: "distinct (map fname (fs scope_agent_files))" by (simp add: ex_defs)
  have v2: "\<not> valid_name (fs scope_agent_files) direct_file" by (simp add: ex_defs eval_defs)
  have g2: "\<exists>g\<in>set (fs scope_agent_files). valid_candidate g" by (simp add: ex_defs eval_defs)
  have fl: "fs scope_agent_files = [agent_newer, corrupt_file, agent_newest]"
    by (simp add: scope_agent_files_def mk_world_def)
  have vc: "valid_candidate agent_newest" "\<not> valid_candidate corrupt_file"
    by (simp_all add: ex_defs eval_defs)
  have ct: "\<not> fctime agent_newest \<le> fctime agent_newer" by (simp add: ex_defs)
  from find_latest_direct_first_then_newest [OF d2] v2 g2
  obtain f where f: "f \<in> set (fs scope_agent_files)" "valid_candidate f"
    "fst (find_latest_challenge_file scope_agent_files) = Some (fname f)"
    "\<forall>h\<in>set (fs scope_agent_files). valid_candidate h \<longrightarrow> fctime h \<le> fctime f"
    by blast
  from f(1,2,4) fl vc ct have "f = agent_newest" by auto
  with f(3) show ?thesis using find_latest_direct_first_then_newest [OF d1] v1 by simp
qed

text \<open>
  Claim C6 as stated fails: both files are valid candidates, \<open>challenge.xlsx\<close> was
  created later, and the locator returns the older \<open>challenge_direct.xlsx\<close>.
\<close>

theorem find_latest_older_direct_counterexample:
  "fs scope_direct_older = [direct_older, agent_newer]
   \<and> valid_candidate direct_older \<and> valid_candidate agent_newer
   \<and> fctime direct_older < fctime agent_newer
   \<and> fst (find_latest_challenge_file scope_direct_older) = Some (fname direct_older)"
  by (simp add: ex_defs eval_defs)

text \<open>
  Claim C7, as amended. When no file matching the pattern is valid, the locator returns
  absent. When every file matching the pattern is non-empty, unreadable and removable,
  no file matching the pattern is left after the call. (An empty candidate gets a
  warning and stays; so does a candidate on which \<open>os.remove\<close> raises.)
\<close>

theorem find_latest_prunes_corrupt:
  "((\<forall>f\<in>set (fs w). glob_match (fname f) \<longrightarrow> \<not> valid f) \<longrightarrow>
       fst (find_latest_challenge_file w) = None)
   \<and> ((\<forall>f\<in>set (fs w). glob_match (fname f) \<longrightarrow> 0 < fsize f \<and> sheet f = None \<and> \<not> locked f) \<longrightarrow>
       (\<forall>f\<in>set (fs (snd (find_latest_challenge_file w))). \<not> glob_match (fname f)))"
  using find_latest_absent find_latest_prunes by blast

text \<open>
  The theorem at a directory with a corrupt candidate and an unrelated file (the
  locator returns absent and no file matching the pattern is left), and, for its first
  part, at a directory with an empty candidate.
\<close>

theorem find_latest_prunes_corrupt_witness:
  "glob_match (fname corrupt_file)
   \<and> fst (find_latest_challenge_file scope_corrupt) = None
   \<and> filter (\<lambda>f. glob_match (fname f)) (fs (snd (find_latest_challenge_file scope_corrupt))) = []
   \<and> fst (find_latest_challenge_file scope_empty_file) = None"
proof -
  have a: "\<forall>f\<in>set (fs scope_corrupt).
             glob_match (fname f) \<longrightarrow> 0 < fsize f \<and> sheet f = None \<and> \<not> locked f"
    by (simp add: ex_defs eval_defs)
  have b: "\<forall>f\<in>set (fs scope_corrupt). glob_match (fname f) \<longrightarrow> \<not> valid f"
    by (simp add: ex_defs eval_defs)
  have c: "\<forall>f\<in>set (fs scope_empty_file). glob_match (fname f) \<longrightarrow> \<not> valid f"
    by (simp add: ex_defs eval_defs)
  have g: "glob_match (fname corrupt_file)" by (simp add: ex_defs eval_defs)
  have "\<forall>f\<in>set (fs (snd (find_latest_challenge_file scope_corrupt))). \<not> glob_match (fname f)"
    using find_latest_prunes_corrupt [of scope_corrupt] a by blast
  then have "filter (\<lambda>f. glob_match (fname f))
               (fs (snd (find_latest_challenge_file scope_corrupt))) = []"
    by (simp add: filter_empty_conv)
  then show ?thesis
    using find_latest_prunes_corrupt [of scope_corrupt]
      find_latest_prunes_corrupt [of scope_empty_file] b c g by blast
qed

text \<open>
  Claim C7 as stated fails: the only candidate is empty, so it fails validation; the
  locator returns absent and the file is still in the directory afterwards.
\<close>

theorem find_latest_keeps_empty_counterexample:
  "fs scope_empty_file = [empty_file] \<and> glob_match (fname empty_file) \<and> \<not> valid empty_file
   \<and> fst (find_latest_challenge_file scope_empty_file) = None
   \<and> fs (snd (find_latest_challenge_file scope_empty_file)) = [empty_file]"
  by (simp add: ex_defs eval_defs)

subsection \<open>read_excel_data\<close>

lemma read_excel_data_hit:
  "entry (lru w) = Some (p, v) \<Longrightarrow> read_excel_data p w = (v, hit w)"
  by (simp add: read_excel_data_def hit_def)

lemma read_file_cases:
  "pd_read_excel p w = (case lookup (fs w) p of None \<Rightarrow> Raises (External ''FileNotFoundError'')
      | Some f \<Rightarrow> (case sheet f of None \<Rightarrow> Raises (External ''read_excel'') | Some rows \<Rightarrow> Returns rows),
     emit (PdReadExcel p) w)"
  by (simp add: pd_read_excel_def split: option.splits)

lemma read_excel_data_miss:
  assumes "\<forall>v. entry (lru w) \<noteq> Some (p, v)"
  shows "fst (read_excel_data p w) = on_disk (fs w) p"
    and "lru (snd (read_excel_data p w)) =
           \<lparr>entry = Some (p, on_disk (fs w) p), hits = hits (lru w), misses = Suc (misses (lru w))\<rparr>"
    and "take (Suc (length (trace w))) (trace (snd (read_excel_data p w))) = trace w @ [PdReadExcel p]"
  using assms
  by (auto simp: read_excel_data_def read_file_cases on_disk_def emit_def split: option.splits)

lemma read_excel_data_entry:
  "entry (lru (snd (read_excel_data p w))) = Some (p, fst (read_excel_data p w))"
proof (cases "\<exists>v. entry (lru w) = Some (p, v)")
  case True
  then show ?thesis by (auto simp: read_excel_data_hit hit_def)
next
  case False
  then show ?thesis by (simp add: read_excel_data_miss)
qed

text \<open>
  Claim C8. After a call with path \<open>p\<close> the one entry of the cache is keyed by \<open>p\<close> and
  holds the result. A further call with \<open>p\<close>, in any later state whose cache is that one,
  is a hit: it returns the same result, reads nothing (the trace is unchanged) and
  counts one more hit. A call with another path \<open>q\<close> is a miss: it reads \<open>q\<close>, counts
  one more miss, and the entry is now keyed by \<open>q\<close>.
\<close>

theorem read_excel_data_memoized:
  "entry (lru (snd (read_excel_data p w))) = Some (p, fst (read_excel_data p w))
   \<and> (lru w2 = lru (snd (read_excel_data p w)) \<longrightarrow>
        fst (read_excel_data p w2) = fst (read_excel_data p w)
        \<and> trace (snd (read_excel_data p w2)) = trace w2
        \<and> hits (lru (snd (read_excel_data p w2))) = Suc (hits (lru w2))
        \<and> misses (lru (snd (read_excel_data p w2))) = misses (lru w2))
   \<and> (q \<noteq> p \<and> lru w3 = lru (snd (read_excel_data p w)) \<longrightarrow>
        fst (read_excel_data q w3) = on_disk (fs w3) q
        \<and> take (Suc (length (trace w3))) (trace (snd (read_excel_data q w3))) = trace w3 @ [PdReadExcel q]
        \<and> misses (lru (snd (read_excel_data q w3))) = Suc (misses (lru w3))
        \<and> entry (lru (snd (read_excel_data q w3))) = Some (q, on_disk (fs w3) q))"
proof (intro conjI impI)
  show "entry (lru (snd (read_excel_data p w))) = Some (p, fst (read_excel_data p w))"
    by (rule read_excel_data_entry)
next
  assume "lru w2 = lru (snd (read_excel_data p w))"
  then have e: "entry (lru w2) = Some (p, fst (read_excel_data p w))"
    by (simp add: read_excel_data_entry)
  show "fst (read_excel_data p w2) = fst (read_excel_data p w)"
    and "trace (snd (read_excel_data p w2)) = trace w2"
    and "hits (lru (snd (read_excel_data p w2))) = Suc (hits (lru w2))"
    and "misses (lru (snd (read_excel_data p w2))) = misses (lru w2)"
    by (simp_all add: read_excel_data_hit [OF e] hit_def)
next
  assume "q \<noteq> p \<and> lru w3 = lru (snd (read_excel_data p w))"
  then have miss: "\<forall>v. entry (lru w3) \<noteq> Some (q, v)"
    by (auto simp: read_excel_data_entry)
  show "fst (read_excel_data q w3) = on_disk (fs w3) q"
    and "take (Suc (length (trace w3))) (trace (snd (read_excel_data q w3))) = trace w3 @ [PdReadExcel q]"
    and "misses (lru (snd (read_excel_data q w3))) = Suc (misses (lru w3))"
    and "entry (lru (snd (read_excel_data q w3))) = Some (q, on_disk (fs w3) q)"
    by (simp_all add: read_excel_data_miss [OF miss])
qed

text \<open>
  The theorem at a directory holding \<open>challenge.xlsx\<close>: the second call reads nothing,
  and a call with another path takes over the entry.
\<close>

theorem read_excel_data_memoized_witness:
  "fst (read_excel_data ''challenge.xlsx'' (mk_world [agent_newer])) = Some rows2
   \<and> fst (read_excel_data ''challenge.xlsx'' (snd (read_excel_data ''challenge.xlsx'' (mk_world [agent_newer])))) = Some rows2
   \<and> trace (snd (read_excel_data ''challenge.xlsx'' (snd (read_excel_data ''challenge.xlsx'' (mk_world [agent_newer])))))
       = [PdReadExcel ''challenge.xlsx'']
   \<and> entry (lru (snd (read_excel_data ''challenge (1).xlsx''
          (snd (read_excel_data ''challenge.xlsx'' (mk_world [agent_newer]))))))
       = Some (''challenge (1).xlsx'', None)"
proof -
  let ?w1 = "snd (read_excel_data ''challenge.xlsx'' (mk_world [agent_newer]))"
  have ne: "''challenge (1).xlsx'' \<noteq> ''challenge.xlsx''" by simp
  have v: "fst (read_excel_data ''challenge.xlsx'' (mk_world [agent_newer])) = Some rows2"
    by (simp add: read_excel_data_def ex_defs eval_defs)
  have t: "trace ?w1 = [PdReadExcel ''challenge.xlsx'']"
    by (simp add: read_excel_data_def ex_defs eval_defs)
  have d: "on_disk (fs ?w1) ''challenge (1).xlsx'' = None"
    by (simp add: read_excel_data_def on_disk_def ex_defs eval_defs)
  show ?thesis
    using read_excel_data_memoized [of "''challenge.xlsx''" "mk_world [agent_newer]" ?w1 "''challenge (1).xlsx''" ?w1] ne v t d
    by simp
qed

text \<open>
  Claim C10. When a call with path \<open>p\<close> returns absent, the entry is \<open>(p, None)\<close>; a
  further call with \<open>p\<close> returns absent without reading, whatever the directory holds
  under \<open>p\<close> by then; after a call with another path, a call with \<open>p\<close> reads the
  file again.
\<close>

theorem read_excel_data_caches_failure:
  assumes "fst (read_excel_data p w) = None"
  shows "entry (lru (snd (read_excel_data p w))) = Some (p, None)
   \<and> (lru w2 = lru (snd (read_excel_data p w)) \<longrightarrow>
        fst (read_excel_data p w2) = None \<and> trace (snd (read_excel_data p w2)) = trace w2)
   \<and> (q \<noteq> p \<and> lru w3 = lru (snd (read_excel_data q (snd (read_excel_data p w)))) \<longrightarrow>
        fst (read_excel_data p w3) = on_disk (fs w3) p)"
proof (intro conjI impI)
  show e: "entry (lru (snd (read_excel_data p w))) = Some (p, None)"
    using assms read_excel_data_entry [of p w] by simp
  {
    assume "lru w2 = lru (snd (read_excel_data p w))"
    then have e2: "entry (lru w2) = Some (p, None)" using e by simp
    show "fst (read_excel_data p w2) = None" and "trace (snd (read_excel_data p w2)) = trace w2"
      by (simp_all add: read_excel_data_hit [OF e2] hit_def)
  }
  assume "q \<noteq> p \<and> lru w3 = lru (snd (read_excel_data q (snd (read_excel_data p w))))"
  then have miss: "\<forall>v. entry (lru w3) \<noteq> Some (p, v)"
    by (auto simp: read_excel_data_entry)
  show "fst (read_excel_data p w3) = on_disk (fs w3) p"
    by (simp add: read_excel_data_miss [OF miss])
qed

text \<open>
  The theorem where the file is missing at the first call and a valid file has arrived
  at the path before the second.
\<close>

theorem read_excel_data_caches_failure_witness:
  "fst (read_excel_data ''challenge.xlsx'' (mk_world [])) = None
   \<and> on_disk (fs file_arrived) ''challenge.xlsx'' = Some rows2
   \<and> fst (read_excel_data ''challenge.xlsx'' file_arrived) = None
   \<and> trace (snd (read_excel_data ''challenge.xlsx'' file_arrived)) = trace file_arrived
   \<and> fst (read_excel_data ''challenge.xlsx'' other_parsed) = Some rows2"
proof -
  have ne: "''challenge (1).xlsx'' \<noteq> ''challenge.xlsx''" by simp
  have h: "fst (read_excel_data ''challenge.xlsx'' (mk_world [])) = None"
    by (simp add: read_excel_data_def ex_defs eval_defs)
  have l2: "lru file_arrived = lru (snd (read_excel_data ''challenge.xlsx'' (mk_world [])))"
    by (simp add: file_arrived_def after_miss_def)
  have l3: "lru other_parsed = lru (snd (read_excel_data ''challenge (1).xlsx''
              (snd (read_excel_data ''challenge.xlsx'' (mk_world [])))))"
    by (simp add: cache_defs ex_defs eval_defs)
  have d2: "on_disk (fs file_arrived) ''challenge.xlsx'' = Some rows2"
    by (simp add: cache_defs ex_defs eval_defs)
  have d3: "on_disk (fs other_parsed) ''challenge.xlsx'' = Some rows2"
    by (simp add: cache_defs ex_defs eval_defs)
  show ?thesis
    using read_excel_data_caches_failure [OF h, of file_arrived "''challenge (1).xlsx''" other_parsed] ne h l2 l3 d2 d3
    by simp
qed

section \<open>The run\<close>

subsection \<open>What each step leaves alone\<close>

lemma emit_fields [simp]:
  "trace (emit e w) = trace w @ [e]" "ticks (emit e w) = ticks w" "lru (emit e w) = lru w"
  "summaries (emit e w) = summaries w"
  by (simp_all add: emit_def)

lemma tick_fields [simp]:
  "trace (tick env w) = trace w" "ticks (tick env w) = Suc (ticks w)" "lru (tick env w) = lru w"
  "summaries (tick env w) = summaries w" "fs (tick env w) = disk env (ticks w) (fs w)"
  by (simp_all add: tick_def)

lemma pd_read_excel_fields [simp]:
  "trace (snd (pd_read_excel p w)) = trace w @ [PdReadExcel p]"
  "ticks (snd (pd_read_excel p w)) = ticks w" "lru (snd (pd_read_excel p w)) = lru w"
  "summaries (snd (pd_read_excel p w)) = summaries w"
  by (simp_all add: read_file_cases)

lemma try_remove_fields [simp]:
  "ticks (try_remove p w) = ticks w" "lru (try_remove p w) = lru w"
  "summaries (try_remove p w) = summaries w" "trace (try_remove p w) = trace w @ [OsRemove p]"
  by (simp_all add: try_remove_def split: option.splits)

lemma check_file_fields [simp]:
  "ticks (snd (check_file p w)) = ticks w" "lru (snd (check_file p w)) = lru w"
  "summaries (snd (check_file p w)) = summaries w"
  by (simp_all add: check_file_def read_file_cases split: outcome.splits option.splits)

lemma scan_fields [simp]:
  "ticks (snd (scan files acc w)) = ticks w" "lru (snd (scan files acc w)) = lru w"
  "summaries (snd (scan files acc w)) = summaries w"
proof (induction files arbitrary: acc w)
  case Nil
  {
    case 1 show ?case by simp
  next
    case 2 show ?case by simp
  next
    case 3 show ?case by simp
  }
next
  case (Cons m files)
  {
    case 1 show ?case by (simp only: scan_Cons Cons.IH(1) check_file_fields)
  next
    case 2 show ?case by (simp only: scan_Cons Cons.IH(2) check_file_fields)
  next
    case 3 show ?case by (simp only: scan_Cons Cons.IH(3) check_file_fields)
  }
qed

lemma check_direct_fields [simp]:
  "ticks (snd (check_direct w)) = ticks w" "lru (snd (check_direct w)) = lru w"
  "summaries (snd (check_direct w)) = summaries w"
  by (simp_all add: check_direct_def read_file_cases split: option.splits)

lemma find_latest_fields [simp]:
  "ticks (snd (find_latest_challenge_file w)) = ticks w"
  "lru (snd (find_latest_challenge_file w)) = lru w"
  "summaries (snd (find_latest_challenge_file w)) = summaries w"
proof -
  have eq: "snd (find_latest_challenge_file w) =
        (if fst (check_direct w) then snd (check_direct w)
         else snd (scan (glob (fs (snd (check_direct w)))) [] (snd (check_direct w))))"
    by (cases "check_direct w") (auto simp: find_latest_challenge_file_def split: prod.splits)
  show "ticks (snd (find_latest_challenge_file w)) = ticks w"
    "lru (snd (find_latest_challenge_file w)) = lru w"
    "summaries (snd (find_latest_challenge_file w)) = summaries w"
    by (simp_all add: eq)
qed

lemma wait_for_run_fields [simp]:
  "fst (wait_for_run env a n t w) = agent_run env (ticks w)"
  "trace (snd (wait_for_run env a n t w)) = trace w @ [AgentRun a n t]"
  "ticks (snd (wait_for_run env a n t w)) = Suc (ticks w)"
  "lru (snd (wait_for_run env a n t w)) = lru w"
  "summaries (snd (wait_for_run env a n t w)) = summaries w"
  by (simp_all add: wait_for_run_def)

lemma asyncio_sleep_fields [simp]:
  "fst (asyncio_sleep env s w) = (if sleep_cancelled env (ticks w) then Raises CancelledError else Returns ())"
  "trace (snd (asyncio_sleep env s w)) = trace w @ [Sleep s]"
  "ticks (snd (asyncio_sleep env s w)) = Suc (ticks w)"
  "lru (snd (asyncio_sleep env s w)) = lru w"
  "summaries (snd (asyncio_sleep env s w)) = summaries w"
  by (simp_all add: asyncio_sleep_def)

lemma write_direct_fields [simp]:
  "trace (write_direct env b w) = trace w @ [FileWrite direct_file]"
  "ticks (write_direct env b w) = ticks w" "lru (write_direct env b w) = lru w"
  "summaries (write_direct env b w) = summaries w"
  "lookup (fs (write_direct env b w)) direct_file =
     Some \<lparr>fname = direct_file, fsize = body_size b, fctime = now env,
           sheet = body_sheet b, locked = False\<rparr>"
  by (simp_all add: write_direct_def lookup_def)


subsection \<open>run_with_retry\<close>

lemma run_with_retry_timeout:
  assumes "agent_run env (ticks w) = Raises TimeoutError"
  shows "fst (run_with_retry env a n t w) = agent_run env (Suc (ticks w))"
    and "trace (snd (run_with_retry env a n t w)) = trace w @ [AgentRun a n t, AgentRun a n t]"
    and "ticks (snd (run_with_retry env a n t w)) = Suc (Suc (ticks w))"
proof -
  obtain w1 where w1: "wait_for_run env a n t w = (Raises TimeoutError, w1)"
    using assms wait_for_run_fields(1) [of env a n t w] by (cases "wait_for_run env a n t w") simp
  have s: "w1 = snd (wait_for_run env a n t w)" using w1 by simp
  have r: "run_with_retry env a n t w = wait_for_run env a n t w1"
    by (simp add: run_with_retry_def w1)
  show "fst (run_with_retry env a n t w) = agent_run env (Suc (ticks w))"
    and "trace (snd (run_with_retry env a n t w)) = trace w @ [AgentRun a n t, AgentRun a n t]"
    and "ticks (snd (run_with_retry env a n t w)) = Suc (Suc (ticks w))"
    by (simp_all add: r s)
qed

lemma run_with_retry_no_timeout:
  assumes "agent_run env (ticks w) \<noteq> Raises TimeoutError"
  shows "fst (run_with_retry env a n t w) = agent_run env (ticks w)"
    and "trace (snd (run_with_retry env a n t w)) = trace w @ [AgentRun a n t]"
    and "ticks (snd (run_with_retry env a n t w)) = Suc (ticks w)"
proof -
  have r: "run_with_retry env a n t w = wait_for_run env a n t w"
    using assms wait_for_run_fields(1) [of env a n t w]
    by (cases "wait_for_run env a n t w") (auto simp: run_with_retry_def split: outcome.splits)
  show "fst (run_with_retry env a n t w) = agent_run env (ticks w)"
    and "trace (snd (run_with_retry env a n t w)) = trace w @ [AgentRun a n t]"
    and "ticks (snd (run_with_retry env a n t w)) = Suc (ticks w)"
    by (simp_all add: r)
qed

lemma run_with_retry_fields [simp]:
  "lru (snd (run_with_retry env a n t w)) = lru w"
  "summaries (snd (run_with_retry env a n t w)) = summaries w"
proof -
  have "run_with_retry env a n t w = wait_for_run env a n t w
        \<or> run_with_retry env a n t w = wait_for_run env a n t (snd (wait_for_run env a n t w))"
    by (cases "wait_for_run env a n t w")
       (auto simp: run_with_retry_def split: outcome.splits simp del: wait_for_run_fields(1))
  then show "lru (snd (run_with_retry env a n t w)) = lru w"
    and "summaries (snd (run_with_retry env a n t w)) = summaries w"
    by auto
qed

lemma invocations_simps [simp]:
  "invocations a [] = 0"
  "invocations a (e # tr) = (if is_run_of a e then 1 else 0) + invocations a tr"
  "invocations a (tr @ tr') = invocations a tr + invocations a tr'"
  by (simp_all add: invocations_def)

subsection \<open>run_download_agent\<close>

lemma direct_download_invalid:
  assumes "\<not> direct_valid env"
  shows "fst (direct_download env self w) = None"
    and "ticks (snd (snd (direct_download env self w))) = ticks w"
    and "invocations a (trace (snd (snd (direct_download env self w)))) = invocations a (trace w)"
  using assms
  by (auto simp: direct_download_def direct_valid_def Let_def read_file_cases
      split: option.splits list.splits)

lemma direct_download_valid:
  assumes "direct_valid env"
  shows "fst (direct_download env self w) =
           (case agent_run env (ticks w) of
              Returns h \<Rightarrow> Some (Returns h)
            | Raises e \<Rightarrow> if is_Exception e then None else Some (Raises e))"
    and "ticks (snd (snd (direct_download env self w))) = Suc (ticks w)"
    and "invocations DownloadAgent (trace (snd (snd (direct_download env self w))))
           = invocations DownloadAgent (trace w)"
  using assms
  by (auto simp: direct_download_def direct_valid_def Let_def read_file_cases wait_for_run_def
      split: option.splits list.splits outcome.splits)

lemma direct_download_fields [simp]:
  "lru (snd (snd (direct_download env self w))) = lru w"
  "summaries (snd (snd (direct_download env self w))) = summaries w"
  "browser_context (fst (snd (direct_download env self w))) = browser_context self"
  "browser (fst (snd (direct_download env self w))) = browser self"
  "result_file (fst (snd (direct_download env self w))) = result_file self"
  by (auto simp: direct_download_def Let_def read_file_cases wait_for_run_def
      split: option.splits list.splits outcome.splits)

lemma run_download_agent_no_context:
  "browser_context self = None \<Longrightarrow> run_download_agent env self w = (Raises ValueError, self, w)"
  by (simp add: run_download_agent_def)

lemma run_download_agent_left:
  assumes "browser_context self \<noteq> None" "fst (direct_download env self w) = Some res"
  shows "fst (run_download_agent env self w) = res"
    and "snd (snd (run_download_agent env self w)) = snd (snd (direct_download env self w))"
  using assms
  by (cases "direct_download env self w"; auto simp: run_download_agent_def)+

lemma run_download_agent_agent:
  assumes "browser_context self \<noteq> None" "fst (direct_download env self w) = None"
  shows "fst (run_download_agent env self w) =
           fst (run_with_retry env DownloadAgent 25 300 (snd (snd (direct_download env self w))))"
    and "snd (snd (run_download_agent env self w)) =
           snd (run_with_retry env DownloadAgent 25 300 (snd (snd (direct_download env self w))))"
  using assms
  by (cases "direct_download env self w"; auto simp: run_download_agent_def split: prod.splits)+

lemma run_download_agent_world:
  "snd (snd (run_download_agent env self w)) = w
   \<or> snd (snd (run_download_agent env self w)) = snd (snd (direct_download env self w))
   \<or> snd (snd (run_download_agent env self w))
       = snd (run_with_retry env DownloadAgent 25 300 (snd (snd (direct_download env self w))))"
  by (cases "direct_download env self w")
     (auto simp: run_download_agent_def split: option.splits prod.splits)

lemma run_download_agent_runner:
  "fst (snd (run_download_agent env self w)) = self
   \<or> fst (snd (run_download_agent env self w)) = fst (snd (direct_download env self w))
   \<or> fst (snd (run_download_agent env self w))
       = (fst (snd (direct_download env self w)))\<lparr>download_agent := Some DownloadAgent\<rparr>"
  by (cases "direct_download env self w")
     (auto simp: run_download_agent_def split: option.splits prod.splits)

lemma run_download_agent_fields [simp]:
  "lru (snd (snd (run_download_agent env self w))) = lru w"
  "summaries (snd (snd (run_download_agent env self w))) = summaries w"
  "browser_context (fst (snd (run_download_agent env self w))) = browser_context self"
  "browser (fst (snd (run_download_agent env self w))) = browser self"
  "result_file (fst (snd (run_download_agent env self w))) = result_file self"
proof -
  show "lru (snd (snd (run_download_agent env self w))) = lru w"
    using run_download_agent_world [of env self w] by auto
  show "summaries (snd (snd (run_download_agent env self w))) = summaries w"
    using run_download_agent_world [of env self w] by auto
  show "browser_context (fst (snd (run_download_agent env self w))) = browser_context self"
    using run_download_agent_runner [of env self w] by auto
  show "browser (fst (snd (run_download_agent env self w))) = browser self"
    using run_download_agent_runner [of env self w] by auto
  show "result_file (fst (snd (run_download_agent env self w))) = result_file self"
    using run_download_agent_runner [of env self w] by auto
qed

subsection \<open>The wait for a stable file\<close>

lemma asyncio_sleep_cases:
  "asyncio_sleep env s w =
     (if sleep_cancelled env (ticks w) then Raises CancelledError else Returns (),
      tick env (emit (Sleep s) w))"
  by (simp add: asyncio_sleep_def)

lemma poll_fields [simp]:
  "lru (snd (poll env n f w)) = lru w"
  "summaries (snd (poll env n f w)) = summaries w"
proof (induction n arbitrary: f w)
  case 0
  {
    case 1 show ?case by simp
  next
    case 2 show ?case by simp
  }
next
  case (Suc n)
  {
    case 1
    show ?case
      using find_latest_fields(2) [of w]
      by (cases "find_latest_challenge_file w")
         (auto simp: asyncio_sleep_cases Suc.IH(1) split: option.splits outcome.splits)
  next
    case 2
    show ?case
      using find_latest_fields(3) [of w]
      by (cases "find_latest_challenge_file w")
         (auto simp: asyncio_sleep_cases Suc.IH(2) split: option.splits outcome.splits)
  }
qed



subsection \<open>process_excel_data and run_process_agent\<close>

lemma read_excel_data_fields [simp]:
  "summaries (snd (read_excel_data p w)) = summaries w"
  "ticks (snd (read_excel_data p w)) = ticks w"
  "fs (snd (read_excel_data p w)) = fs w"
  by (auto simp: read_excel_data_def read_file_cases split: option.splits outcome.splits)

lemma snd_process_excel_data:
  "snd (process_excel_data w) =
     (case fst (find_latest_challenge_file w) of
        None \<Rightarrow> snd (find_latest_challenge_file w)
      | Some p \<Rightarrow> snd (read_excel_data p (snd (find_latest_challenge_file w))))"
  by (cases "find_latest_challenge_file w")
     (auto simp: process_excel_data_def split: option.splits list.splits prod.splits)

lemma fst_process_excel_data:
  "fst (process_excel_data w) =
     (case fst (find_latest_challenge_file w) of
        None \<Rightarrow> Raises ExcelFileNotFound
      | Some p \<Rightarrow>
          (case fst (read_excel_data p (snd (find_latest_challenge_file w))) of
             Some (r # rs) \<Rightarrow> Returns (r # rs)
           | _ \<Rightarrow> Raises ExcelDataUnreadable))"
  by (cases "find_latest_challenge_file w")
     (auto simp: process_excel_data_def split: option.splits list.splits prod.splits)

lemma process_excel_data_fields [simp]:
  "summaries (snd (process_excel_data w)) = summaries w"
  "ticks (snd (process_excel_data w)) = ticks w"
  by (simp_all add: snd_process_excel_data split: option.splits)


lemma run_process_agent_no_context:
  "browser_context self = None \<Longrightarrow> run_process_agent env self d w = (Raises ValueError, self, w)"
  by (simp add: run_process_agent_def)

lemma run_process_agent_context:
  "browser_context self \<noteq> None \<Longrightarrow>
   run_process_agent env self d w =
     (fst (run_with_retry env (ProcessAgent d) 100 600 w),
      self\<lparr>process_agent := Some (ProcessAgent d)\<rparr>,
      snd (run_with_retry env (ProcessAgent d) 100 600 w))"
  by (auto simp: run_process_agent_def split: prod.splits)

lemma run_process_agent_fields [simp]:
  "summaries (snd (snd (run_process_agent env self d w))) = summaries w"
  "lru (snd (snd (run_process_agent env self d w))) = lru w"
  "browser_context (fst (snd (run_process_agent env self d w))) = browser_context self"
  "browser (fst (snd (run_process_agent env self d w))) = browser self"
  "result_file (fst (snd (run_process_agent env self d w))) = result_file self"
  by (cases "browser_context self = None";
      simp add: run_process_agent_no_context run_process_agent_context)+




subsection \<open>acquire and submit\<close>

lemma acquire_fields [simp]:
  "lru (snd (snd (acquire env self w))) = lru w"
  "summaries (snd (snd (acquire env self w))) = summaries w"
  "browser_context (fst (snd (acquire env self w))) = browser_context self"
  "browser (fst (snd (acquire env self w))) = browser self"
  "result_file (fst (snd (acquire env self w))) = result_file self"
proof -
  let ?d = "run_download_agent env self w"
  let ?s = "asyncio_sleep env 10 (snd (snd ?d))"
  let ?p = "poll env 5 None (snd ?s)"
  have w: "snd (snd (acquire env self w)) = snd (snd ?d)
         \<or> snd (snd (acquire env self w)) = snd ?s
         \<or> snd (snd (acquire env self w)) = snd ?p"
    by (cases ?d, cases ?s, cases ?p)
       (auto simp: acquire_def split: outcome.splits option.splits simp del: asyncio_sleep_fields(1))
  have r: "fst (snd (acquire env self w)) = fst (snd ?d)"
    by (cases ?d, cases ?s, cases ?p)
       (auto simp: acquire_def split: outcome.splits option.splits simp del: asyncio_sleep_fields(1))
  show "lru (snd (snd (acquire env self w))) = lru w" using w by auto
  show "summaries (snd (snd (acquire env self w))) = summaries w" using w by auto
  show "browser_context (fst (snd (acquire env self w))) = browser_context self" by (simp add: r)
  show "browser (fst (snd (acquire env self w))) = browser self" by (simp add: r)
  show "result_file (fst (snd (acquire env self w))) = result_file self" by (simp add: r)
qed

lemma acquire_fetch_raises:
  "fst (run_download_agent env self w) = Raises e \<Longrightarrow>
   fst (acquire env self w) = Inl (Failed e [] None None)"
  by (cases "run_download_agent env self w") (simp add: acquire_def)

lemma acquire_context:
  "fst (acquire env self w) = Inr dh \<Longrightarrow> browser_context self \<noteq> None"
  by (cases "browser_context self") (auto simp: acquire_def run_download_agent_no_context)


lemma write_summary_fields [simp]:
  "fst (write_summary env self ls w) = summary_write env (length (trace w))"
  "lru (snd (write_summary env self ls w)) = lru w"
  "trace (snd (write_summary env self ls w)) = trace w @ [SummaryWrite (result_file self)]"
  "summaries (snd (write_summary env self ls w)) =
     (case summary_write env (length (trace w)) of
        None \<Rightarrow> (summaries w)(result_file self \<mapsto> ls)
      | Some e \<Rightarrow> summaries w)"
  by (simp_all add: write_summary_def split: option.splits)

lemma call_back_fields [simp]:
  "fst (call_back cb r w) = (case cb of None \<Rightarrow> None | Some f \<Rightarrow> f r)"
  "summaries (snd (call_back cb r w)) = summaries w"
  "lru (snd (call_back cb r w)) = lru w"
  "invocations a (trace (snd (call_back cb r w))) = invocations a (trace w)"
  by (simp_all add: call_back_def split: option.splits)

lemma report_cases:
  "report env cb self r w =
     (case summary_write env (length (trace w)) of
        Some e \<Rightarrow> (Some e, snd (write_summary env self (summary r) w))
      | None \<Rightarrow> call_back cb r (snd (write_summary env self (summary r) w)))"
  by (cases "write_summary env self (summary r) w")
     (auto simp: report_def write_summary_def split: option.splits)

lemma report_fields [simp]:
  "lru (snd (report env cb self r w)) = lru w"
  "invocations a (trace (snd (report env cb self r w))) = invocations a (trace w)"
  by (simp_all add: report_cases split: option.splits)


lemma report_ok:
  "writes_succeed env \<Longrightarrow> callback_returns cb \<Longrightarrow> fst (report env cb self r w) = None"
  by (auto simp: report_cases writes_succeed_def callback_returns_def split: option.splits)


text \<open>The ways out of \<open>submit\<close>.\<close>

lemma submit_cases:
  "submit env cb dh self w =
     (case fst (process_excel_data w) of
        Raises e \<Rightarrow> (Failed e [] (Some dh) None, self, snd (process_excel_data w))
      | Returns d \<Rightarrow>
          (case fst (run_process_agent env self d (snd (process_excel_data w))) of
             Raises e \<Rightarrow>
               (Failed e [] (Some dh) None,
                snd (run_process_agent env self d (snd (process_excel_data w))))
           | Returns ph \<Rightarrow>
               if \<not> is_done ph then
                 (Failed (ProcessFailed (errors ph)) [Msg (ProcessFailed (errors ph))]
                    (Some dh) (Some ph),
                  snd (run_process_agent env self d (snd (process_excel_data w))))
               else
                 (case fst (report env cb
                        (fst (snd (run_process_agent env self d (snd (process_excel_data w)))))
                        (success_record env
                           (fst (snd (run_process_agent env self d (snd (process_excel_data w)))))
                           dh ph)
                        (snd (snd (run_process_agent env self d (snd (process_excel_data w)))))) of
                    Some e \<Rightarrow>
                      (Failed e [FinalSummary, AgentSection ''Download Agent'' dh,
                                 AgentSection ''Process Agent'' ph] (Some dh) (Some ph),
                       fst (snd (run_process_agent env self d (snd (process_excel_data w)))),
                       snd (report env cb
                        (fst (snd (run_process_agent env self d (snd (process_excel_data w)))))
                        (success_record env
                           (fst (snd (run_process_agent env self d (snd (process_excel_data w)))))
                           dh ph)
                        (snd (snd (run_process_agent env self d (snd (process_excel_data w)))))))
                  | None \<Rightarrow>
                      (Completed (success_record env
                           (fst (snd (run_process_agent env self d (snd (process_excel_data w)))))
                           dh ph),
                       fst (snd (run_process_agent env self d (snd (process_excel_data w)))),
                       snd (report env cb
                        (fst (snd (run_process_agent env self d (snd (process_excel_data w)))))
                        (success_record env
                           (fst (snd (run_process_agent env self d (snd (process_excel_data w)))))
                           dh ph)
                        (snd (snd (run_process_agent env self d (snd (process_excel_data w))))))))))"
proof (cases "process_excel_data w")
  case (Pair pr pw)
  show ?thesis
  proof (cases pr)
    case (Raises e)
    with Pair show ?thesis by (simp add: submit_def)
  next
    case (Returns d)
    obtain ar s1 w2 where a: "run_process_agent env self d pw = (ar, s1, w2)"
      by (cases "run_process_agent env self d pw") auto
    show ?thesis
    proof (cases ar)
      case (Raises e)
      with Pair Returns a show ?thesis by (simp add: submit_def)
    next
      case (Returns ph)
      note ph = this
      show ?thesis
      proof (cases "is_done ph")
        case False
        with Pair \<open>pr = Returns d\<close> a ph show ?thesis by (simp add: submit_def)
      next
        case True
        obtain x w3 where r: "report env cb s1 (success_record env s1 dh ph) w2 = (x, w3)"
          by (cases "report env cb s1 (success_record env s1 dh ph) w2") auto
        with Pair \<open>pr = Returns d\<close> a ph True show ?thesis
          by (cases x) (simp_all add: submit_def Let_def success_record_def)
      qed
    qed
  qed
qed

lemma submit_runner [simp]:
  "browser_context (fst (snd (submit env cb dh self w))) = browser_context self"
  "browser (fst (snd (submit env cb dh self w))) = browser self"
  "result_file (fst (snd (submit env cb dh self w))) = result_file self"
  by (simp_all add: submit_cases split: outcome.splits option.splits)

lemma submit_lru_cases:
  "lru (snd (snd (submit env cb dh self w))) = lru (snd (process_excel_data w))"
  by (simp add: submit_cases split: outcome.splits option.splits)




lemma submit_process_raises:
  assumes "fst (process_excel_data w) = Returns d"
    and "fst (run_process_agent env self d (snd (process_excel_data w))) = Raises e"
  shows "submit env cb dh self w =
           (Failed e [] (Some dh) None,
            snd (run_process_agent env self d (snd (process_excel_data w))))"
  using assms by (simp add: submit_cases)

lemma submit_success:
  assumes "fst (process_excel_data w) = Returns d"
    and "fst (run_process_agent env self d (snd (process_excel_data w))) = Returns ph"
    and "is_done ph" "writes_succeed env" "callback_returns cb"
  shows "submit env cb dh self w =
           (Completed (success_record env
               (fst (snd (run_process_agent env self d (snd (process_excel_data w))))) dh ph),
            fst (snd (run_process_agent env self d (snd (process_excel_data w)))),
            snd (report env cb
               (fst (snd (run_process_agent env self d (snd (process_excel_data w)))))
               (success_record env
                  (fst (snd (run_process_agent env self d (snd (process_excel_data w))))) dh ph)
               (snd (snd (run_process_agent env self d (snd (process_excel_data w)))))))"
  using assms(1,2,3) report_ok [OF assms(4,5)] by (simp add: submit_cases)

subsection \<open>The try block and its handler\<close>

lemma run_automation_try_cases:
  "run_automation_try env cb self w =
     (case fst (acquire env self w) of
        Inl failed \<Rightarrow> (failed, snd (acquire env self w))
      | Inr dh \<Rightarrow> submit env cb dh (fst (snd (acquire env self w))) (snd (snd (acquire env self w))))"
  by (cases "acquire env self w") (auto simp: run_automation_try_def split: sum.splits)

lemma run_automation_try_runner [simp]:
  "browser_context (fst (snd (run_automation_try env cb self w))) = browser_context self"
  "browser (fst (snd (run_automation_try env cb self w))) = browser self"
  "result_file (fst (snd (run_automation_try env cb self w))) = result_file self"
  by (simp_all add: run_automation_try_cases split: sum.splits)







lemma run_automation_guarded_completed:
  "fst (run_automation_try env cb self w) = Completed r \<Longrightarrow>
   run_automation_guarded env cb self w = (Returns r, snd (run_automation_try env cb self w))"
  by (cases "run_automation_try env cb self w") (simp add: run_automation_guarded_def)

lemma run_automation_guarded_failed:
  assumes "fst (run_automation_try env cb self w) = Failed e ls dh ph" "is_Exception e"
  shows "run_automation_guarded env cb self w =
     (case fst (report env cb (fst (snd (run_automation_try env cb self w)))
                 (failure_record env (fst (snd (run_automation_try env cb self w))) e ls dh ph)
                 (emit (LogError ''Erro durante a execucao do RPA Challenge'')
                    (snd (snd (run_automation_try env cb self w))))) of
        Some x \<Rightarrow> Raises x
      | None \<Rightarrow>
          Returns (failure_record env (fst (snd (run_automation_try env cb self w))) e ls dh ph),
      fst (snd (run_automation_try env cb self w)),
      snd (report env cb (fst (snd (run_automation_try env cb self w)))
             (failure_record env (fst (snd (run_automation_try env cb self w))) e ls dh ph)
             (emit (LogError ''Erro durante a execucao do RPA Challenge'')
                (snd (snd (run_automation_try env cb self w))))))"
proof -
  obtain s1 w1 where t: "run_automation_try env cb self w = (Failed e ls dh ph, s1, w1)"
    using assms(1) by (cases "run_automation_try env cb self w") auto
  obtain x w2 where r: "report env cb s1 (failure_record env s1 e ls dh ph)
      (emit (LogError ''Erro durante a execucao do RPA Challenge'') w1) = (x, w2)"
    by (cases "report env cb s1 (failure_record env s1 e ls dh ph)
      (emit (LogError ''Erro durante a execucao do RPA Challenge'') w1)") auto
  show ?thesis
    using assms(2) r
    by (cases x) (simp_all add: run_automation_guarded_def t Let_def failure_record_def)
qed

lemma run_automation_guarded_cancelled:
  assumes "fst (run_automation_try env cb self w) = Failed e ls dh ph" "\<not> is_Exception e"
  shows "run_automation_guarded env cb self w = (Raises e, snd (run_automation_try env cb self w))"
  using assms by (cases "run_automation_try env cb self w") (simp add: run_automation_guarded_def)

lemma run_automation_guarded_runner_eq:
  "fst (snd (run_automation_guarded env cb self w)) = fst (snd (run_automation_try env cb self w))"
proof (cases "fst (run_automation_try env cb self w)")
  case (Completed r)
  then show ?thesis by (simp add: run_automation_guarded_completed)
next
  case (Failed e ls dh ph)
  then show ?thesis
    by (cases "is_Exception e")
       (simp_all add: run_automation_guarded_failed run_automation_guarded_cancelled)
qed

lemma run_automation_guarded_runner [simp]:
  "browser_context (fst (snd (run_automation_guarded env cb self w))) = browser_context self"
  "browser (fst (snd (run_automation_guarded env cb self w))) = browser self"
  "result_file (fst (snd (run_automation_guarded env cb self w))) = result_file self"
  by (simp_all add: run_automation_guarded_runner_eq)

lemma run_automation_guarded_lru:
  "lru (snd (snd (run_automation_guarded env cb self w)))
     = lru (snd (snd (run_automation_try env cb self w)))"
proof (cases "fst (run_automation_try env cb self w)")
  case (Completed r)
  then show ?thesis by (simp add: run_automation_guarded_completed)
next
  case (Failed e ls dh ph)
  then show ?thesis
    by (cases "is_Exception e")
       (simp_all add: run_automation_guarded_failed run_automation_guarded_cancelled)
qed



subsection \<open>close_resources\<close>


lemma close_resources_ordinary:
  "release_ordinary env \<Longrightarrow> fst (close_resources env self w) = Returns ()"
  by (auto simp: close_resources_def close_context_def close_browser_def release_ordinary_def
      split: option.splits)

lemma close_resources_fields [simp]:
  "summaries (snd (snd (close_resources env self w))) = summaries w"
  "lru (snd (snd (close_resources env self w))) = lru w"
  "result_file (fst (snd (close_resources env self w))) = result_file self"
  "invocations a (trace (snd (snd (close_resources env self w)))) = invocations a (trace w)"
  by (auto simp: close_resources_def close_context_def close_browser_def split: option.splits)


subsection \<open>run_automation\<close>

lemma run_automation_cases:
  "run_automation env cb self w =
     (case fst (close_resources env (fst (snd (run_automation_guarded env cb self w)))
                 (snd (snd (run_automation_guarded env cb self w)))) of
        Raises e \<Rightarrow>
          (Raises e, snd (close_resources env (fst (snd (run_automation_guarded env cb self w)))
                           (snd (snd (run_automation_guarded env cb self w)))))
      | Returns u \<Rightarrow>
          (fst (run_automation_guarded env cb self w),
           snd (close_resources env (fst (snd (run_automation_guarded env cb self w)))
                 (snd (snd (run_automation_guarded env cb self w))))))"
  by (cases "run_automation_guarded env cb self w";
      cases "close_resources env (fst (snd (run_automation_guarded env cb self w)))
                 (snd (snd (run_automation_guarded env cb self w)))")
     (auto simp: run_automation_def split: outcome.splits)

lemma snd_run_automation:
  "snd (run_automation env cb self w) =
     snd (close_resources env (fst (snd (run_automation_guarded env cb self w)))
           (snd (snd (run_automation_guarded env cb self w))))"
  by (simp add: run_automation_cases split: outcome.splits)

lemma fst_run_automation_ordinary:
  "release_ordinary env \<Longrightarrow>
   fst (run_automation env cb self w) = fst (run_automation_guarded env cb self w)"
  by (simp add: run_automation_cases close_resources_ordinary)

lemma direct_download_invocations:
  "invocations DownloadAgent (trace (snd (snd (direct_download env self w))))
     = invocations DownloadAgent (trace w)"
  by (cases "direct_valid env") (simp_all add: direct_download_valid direct_download_invalid)

lemma poll_raises:
  "fst (poll env n f w) = Raises e \<Longrightarrow> e = CancelledError \<or> e = External ''FileNotFoundError''"
proof (induction n arbitrary: f w)
  case 0
  then show ?case by simp
next
  case (Suc n)
  then show ?case
    by (cases "find_latest_challenge_file w")
       (auto simp: asyncio_sleep_cases getsize_def split: option.splits outcome.splits if_splits)
qed

lemma acquire_fetch_raises_world:
  "fst (run_download_agent env self w) = Raises e \<Longrightarrow>
   acquire env self w = (Inl (Failed e [] None None), snd (run_download_agent env self w))"
  by (cases "run_download_agent env self w") (simp add: acquire_def)

lemma acquire_fetch_returns:
  assumes "fst (run_download_agent env self w) = Returns h"
  shows "(case fst (acquire env self w) of
            Inr dh \<Rightarrow> dh = h \<and> is_done h
          | Inl (Completed r) \<Rightarrow> False
          | Inl (Failed e ls dh ph) \<Rightarrow>
              dh = Some h \<and> e \<noteq> TimeoutError
              \<and> (e = DownloadFailed (errors h)) = (\<not> is_done h))"
proof -
  let ?d = "run_download_agent env self w"
  obtain s1 w1 where d: "?d = (Returns h, s1, w1)" using assms(1) by (cases ?d) auto
  obtain sr w2 where s: "asyncio_sleep env 10 w1 = (sr, w2)" by (cases "asyncio_sleep env 10 w1") auto
  obtain pr w3 where p: "poll env 5 None w2 = (pr, w3)" by (cases "poll env 5 None w2") auto
  have sr: "sr = Raises e \<Longrightarrow> e = CancelledError" for e
    using s by (auto simp: asyncio_sleep_def split: if_splits)
  have pr: "pr = Raises e \<Longrightarrow> e = CancelledError \<or> e = External ''FileNotFoundError''" for e
    using poll_raises [of env 5 None w2 e] p by simp
  show ?thesis
  proof (cases "is_done h")
    case False
    then show ?thesis by (simp add: acquire_def d)
  next
    case True
    then show ?thesis
      using sr pr by (auto simp: acquire_def d s p split: outcome.splits option.splits)
  qed
qed

text \<open>What a failed try block gives when the handler and the release complete.\<close>

lemma failed_run:
  assumes "fst (run_automation_try env cb self w) = Failed e ls dh ph" "is_Exception e"
    and "writes_succeed env" "callback_returns cb" "release_ordinary env"
  shows "fst (run_automation env cb self w)
           = Returns (failure_record env (fst (snd (run_automation_try env cb self w))) e ls dh ph)"
    and "invocations a (trace (snd (snd (run_automation env cb self w))))
           = invocations a (trace (snd (snd (run_automation_try env cb self w))))"
proof -
  show "fst (run_automation env cb self w)
           = Returns (failure_record env (fst (snd (run_automation_try env cb self w))) e ls dh ph)"
    using report_ok [OF assms(3,4)]
    by (simp add: fst_run_automation_ordinary [OF assms(5)]
        run_automation_guarded_failed [OF assms(1,2)])
  show "invocations a (trace (snd (snd (run_automation env cb self w))))
           = invocations a (trace (snd (snd (run_automation_try env cb self w))))"
    by (simp add: snd_run_automation run_automation_guarded_failed [OF assms(1,2)])
qed

lemma completed_run:
  assumes "fst (run_automation_try env cb self w) = Completed r" "release_ordinary env"
  shows "fst (run_automation env cb self w) = Returns r"
    and "invocations a (trace (snd (snd (run_automation env cb self w))))
           = invocations a (trace (snd (snd (run_automation_try env cb self w))))"
  using assms
  by (simp_all add: fst_run_automation_ordinary snd_run_automation
      run_automation_guarded_completed)

section \<open>The claims about the run\<close>

text \<open>
  Claim C1, amended. In both phases the agent is awaited under \<open>run_with_retry\<close>: when
  the first invocation times out, the phase's result is whatever one second invocation
  with the same step budget and the same time budget gives, and the trace shows exactly
  these two invocations. At the level of the run:

  \<^item> fetch phase, the second invocation returns a history: the timeout does not fail
    the phase. \<open>run_automation\<close> goes on with that history as with a first
    invocation's: it proceeds to the wait for the file when the history reports the
    task done, and fails with the message of the download failure, not with the
    timeout, when it does not;

  \<^item> fetch phase, the second invocation times out: the run returns a record with
    \<open>success = False\<close> and the timeout as its error, after exactly two invocations;

  \<^item> submission phase, the second invocation returns a history: the run returns a
    record that carries this history, with \<open>success = True\<close> exactly when the
    history reports the task done, after exactly two invocations;

  \<^item> submission phase, the second invocation times out: the run returns a record with
    \<open>success = False\<close> and the timeout as its error, after exactly two invocations.

  The three statements about a returned record hold when the summary write and the
  callback return and what the release raises, if anything, is an \<open>Exception\<close>.
\<close>

theorem single_retry_on_timeout:
  "(browser_context self \<noteq> None \<and> fst (direct_download env self w) = None
      \<and> agent_run env (ticks (snd (snd (direct_download env self w)))) = Raises TimeoutError \<longrightarrow>
      fst (run_download_agent env self w)
        = agent_run env (Suc (ticks (snd (snd (direct_download env self w)))))
      \<and> trace (snd (snd (run_download_agent env self w)))
        = trace (snd (snd (direct_download env self w)))
          @ [AgentRun DownloadAgent 25 300, AgentRun DownloadAgent 25 300])
   \<and> (browser_context self \<noteq> None \<and> agent_run env (ticks w) = Raises TimeoutError \<longrightarrow>
      fst (run_process_agent env self d w) = agent_run env (Suc (ticks w))
      \<and> trace (snd (snd (run_process_agent env self d w)))
        = trace w @ [AgentRun (ProcessAgent d) 100 600, AgentRun (ProcessAgent d) 100 600])
   \<and> (browser_context self \<noteq> None \<and> fst (direct_download env self w) = None
      \<and> agent_run env (ticks (snd (snd (direct_download env self w)))) = Raises TimeoutError
      \<and> agent_run env (Suc (ticks (snd (snd (direct_download env self w))))) = Returns h
      \<longrightarrow>
      (case fst (acquire env self w) of
         Inr dh' \<Rightarrow> dh' = h \<and> is_done h
       | Inl (Completed r) \<Rightarrow> False
       | Inl (Failed e ls dh' ph') \<Rightarrow>
           dh' = Some h \<and> e \<noteq> TimeoutError
           \<and> (e = DownloadFailed (errors h)) = (\<not> is_done h)))
   \<and> (browser_context self \<noteq> None \<and> fst (direct_download env self w) = None
      \<and> agent_run env (ticks (snd (snd (direct_download env self w)))) = Raises TimeoutError
      \<and> agent_run env (Suc (ticks (snd (snd (direct_download env self w))))) = Raises TimeoutError
      \<and> writes_succeed env \<and> callback_returns cb \<and> release_ordinary env \<longrightarrow>
      (case fst (run_automation env cb self w) of
         Returns r \<Rightarrow> \<not> success r \<and> error r = Some TimeoutError \<and> r_download_history r = None
       | Raises x \<Rightarrow> False)
      \<and> invocations DownloadAgent (trace (snd (snd (run_automation env cb self w))))
          = invocations DownloadAgent (trace w) + 2)
   \<and> (fst (acquire env self w) = Inr dh
      \<and> fst (process_excel_data (snd (snd (acquire env self w)))) = Returns d
      \<and> agent_run env (ticks (snd (snd (acquire env self w)))) = Raises TimeoutError
      \<and> agent_run env (Suc (ticks (snd (snd (acquire env self w))))) = Returns ph
      \<and> writes_succeed env \<and> callback_returns cb \<and> release_ordinary env \<longrightarrow>
      (case fst (run_automation env cb self w) of
         Returns r \<Rightarrow>
           r_download_history r = Some dh \<and> r_process_history r = Some ph
           \<and> success r = is_done ph
           \<and> error r = (if is_done ph then None else Some (ProcessFailed (errors ph)))
       | Raises x \<Rightarrow> False)
      \<and> invocations (ProcessAgent d) (trace (snd (snd (run_automation env cb self w))))
          = invocations (ProcessAgent d)
              (trace (snd (process_excel_data (snd (snd (acquire env self w)))))) + 2)
   \<and> (fst (acquire env self w) = Inr dh
      \<and> fst (process_excel_data (snd (snd (acquire env self w)))) = Returns d
      \<and> agent_run env (ticks (snd (snd (acquire env self w)))) = Raises TimeoutError
      \<and> agent_run env (Suc (ticks (snd (snd (acquire env self w))))) = Raises TimeoutError
      \<and> writes_succeed env \<and> callback_returns cb \<and> release_ordinary env \<longrightarrow>
      (case fst (run_automation env cb self w) of
         Returns r \<Rightarrow> \<not> success r \<and> error r = Some TimeoutError
                      \<and> r_download_history r = Some dh
       | Raises x \<Rightarrow> False)
      \<and> invocations (ProcessAgent d) (trace (snd (snd (run_automation env cb self w))))
          = invocations (ProcessAgent d)
              (trace (snd (process_excel_data (snd (snd (acquire env self w)))))) + 2)"
proof (intro conjI impI)
  let ?wd = "snd (snd (direct_download env self w))"
  let ?sa = "fst (snd (acquire env self w))"
  let ?wa = "snd (snd (acquire env self w))"
  let ?wp = "snd (process_excel_data ?wa)"
  {
    assume a: "browser_context self \<noteq> None \<and> fst (direct_download env self w) = None
      \<and> agent_run env (ticks ?wd) = Raises TimeoutError"
    then show "fst (run_download_agent env self w) = agent_run env (Suc (ticks ?wd))"
      and "trace (snd (snd (run_download_agent env self w)))
        = trace ?wd @ [AgentRun DownloadAgent 25 300, AgentRun DownloadAgent 25 300]"
      by (simp_all add: run_download_agent_agent run_with_retry_timeout)
  }
  {
    assume a: "browser_context self \<noteq> None \<and> agent_run env (ticks w) = Raises TimeoutError"
    then show "fst (run_process_agent env self d w) = agent_run env (Suc (ticks w))"
      and "trace (snd (snd (run_process_agent env self d w)))
        = trace w @ [AgentRun (ProcessAgent d) 100 600, AgentRun (ProcessAgent d) 100 600]"
      by (simp_all add: run_process_agent_context run_with_retry_timeout)
  }
  {
    assume a: "browser_context self \<noteq> None \<and> fst (direct_download env self w) = None
      \<and> agent_run env (ticks ?wd) = Raises TimeoutError
      \<and> agent_run env (Suc (ticks ?wd)) = Returns h"
    then have "fst (run_download_agent env self w) = Returns h"
      by (simp add: run_download_agent_agent run_with_retry_timeout)
    then show "(case fst (acquire env self w) of
         Inr dh' \<Rightarrow> dh' = h \<and> is_done h
       | Inl (Completed r) \<Rightarrow> False
       | Inl (Failed e ls dh' ph') \<Rightarrow>
           dh' = Some h \<and> e \<noteq> TimeoutError
           \<and> (e = DownloadFailed (errors h)) = (\<not> is_done h))"
      by (rule acquire_fetch_returns)
  }
  {
    assume a: "browser_context self \<noteq> None \<and> fst (direct_download env self w) = None
      \<and> agent_run env (ticks ?wd) = Raises TimeoutError
      \<and> agent_run env (Suc (ticks ?wd)) = Raises TimeoutError
      \<and> writes_succeed env \<and> callback_returns cb \<and> release_ordinary env"
    then have r: "fst (run_download_agent env self w) = Raises TimeoutError"
      and tr: "trace (snd (snd (run_download_agent env self w)))
        = trace ?wd @ [AgentRun DownloadAgent 25 300, AgentRun DownloadAgent 25 300]"
      by (simp_all add: run_download_agent_agent run_with_retry_timeout)
    have t: "run_automation_try env cb self w
               = (Failed TimeoutError [] None None, snd (run_download_agent env self w))"
      by (simp add: run_automation_try_cases acquire_fetch_raises_world [OF r])
    then have f: "fst (run_automation_try env cb self w) = Failed TimeoutError [] None None"
      by simp
    from a have h: "writes_succeed env" "callback_returns cb" "release_ordinary env" by simp_all
    show "(case fst (run_automation env cb self w) of
         Returns r \<Rightarrow> \<not> success r \<and> error r = Some TimeoutError \<and> r_download_history r = None
       | Raises x \<Rightarrow> False)"
      using failed_run(1) [OF f _ h] by (simp add: failure_record_def)
    show "invocations DownloadAgent (trace (snd (snd (run_automation env cb self w))))
          = invocations DownloadAgent (trace w) + 2"
      using failed_run(2) [OF f _ h, of DownloadAgent] direct_download_invocations [of env self w]
      by (simp add: t tr)
  }
  {
    assume a: "fst (acquire env self w) = Inr dh
      \<and> fst (process_excel_data ?wa) = Returns d
      \<and> agent_run env (ticks ?wa) = Raises TimeoutError
      \<and> agent_run env (Suc (ticks ?wa)) = Returns ph
      \<and> writes_succeed env \<and> callback_returns cb \<and> release_ordinary env"
    then have c: "browser_context ?sa \<noteq> None" using acquire_context [of env self w dh] by simp
    from a have to: "agent_run env (ticks ?wp) = Raises TimeoutError"
      and ok: "agent_run env (Suc (ticks ?wp)) = Returns ph" by simp_all
    have pa: "fst (run_process_agent env ?sa d ?wp) = Returns ph"
      and tr: "trace (snd (snd (run_process_agent env ?sa d ?wp)))
        = trace ?wp @ [AgentRun (ProcessAgent d) 100 600, AgentRun (ProcessAgent d) 100 600]"
      using c to ok by (simp_all add: run_process_agent_context run_with_retry_timeout)
    from a have h: "writes_succeed env" "callback_returns cb" "release_ordinary env"
      and pd: "fst (process_excel_data ?wa) = Returns d"
      and aq: "fst (acquire env self w) = Inr dh" by simp_all
    let ?s1 = "fst (snd (run_process_agent env ?sa d ?wp))"
    have "(case fst (run_automation env cb self w) of
         Returns r \<Rightarrow>
           r_download_history r = Some dh \<and> r_process_history r = Some ph
           \<and> success r = is_done ph
           \<and> error r = (if is_done ph then None else Some (ProcessFailed (errors ph)))
       | Raises x \<Rightarrow> False)
      \<and> invocations (ProcessAgent d) (trace (snd (snd (run_automation env cb self w))))
          = invocations (ProcessAgent d) (trace ?wp) + 2"
    proof (cases "is_done ph")
      case True
      have t: "run_automation_try env cb self w =
          (Completed (success_record env ?s1 dh ph), ?s1,
           snd (report env cb ?s1 (success_record env ?s1 dh ph)
                  (snd (snd (run_process_agent env ?sa d ?wp)))))"
        using submit_success [OF pd pa True h(1,2), of dh]
        by (simp add: run_automation_try_cases aq)
      then have f: "fst (run_automation_try env cb self w)
                      = Completed (success_record env ?s1 dh ph)" by simp
      show ?thesis
        using completed_run(1) [OF f h(3)] completed_run(2) [OF f h(3), of "ProcessAgent d"] True
        by (simp add: success_record_def t tr)
    next
      case False
      have t: "run_automation_try env cb self w =
          (Failed (ProcessFailed (errors ph)) [Msg (ProcessFailed (errors ph))]
             (Some dh) (Some ph), snd (run_process_agent env ?sa d ?wp))"
        using pd pa False by (simp add: run_automation_try_cases aq submit_cases)
      then have f: "fst (run_automation_try env cb self w)
          = Failed (ProcessFailed (errors ph)) [Msg (ProcessFailed (errors ph))]
              (Some dh) (Some ph)" by simp
      show ?thesis
        using failed_run(1) [OF f _ h] failed_run(2) [OF f _ h, of "ProcessAgent d"] False
        by (simp add: failure_record_def t tr)
    qed
    then show "(case fst (run_automation env cb self w) of
         Returns r \<Rightarrow>
           r_download_history r = Some dh \<and> r_process_history r = Some ph
           \<and> success r = is_done ph
           \<and> error r = (if is_done ph then None else Some (ProcessFailed (errors ph)))
       | Raises x \<Rightarrow> False)"
      and "invocations (ProcessAgent d) (trace (snd (snd (run_automation env cb self w))))
          = invocations (ProcessAgent d) (trace ?wp) + 2"
      by simp_all
  }
  assume a: "fst (acquire env self w) = Inr dh
      \<and> fst (process_excel_data ?wa) = Returns d
      \<and> agent_run env (ticks ?wa) = Raises TimeoutError
      \<and> agent_run env (Suc (ticks ?wa)) = Raises TimeoutError
      \<and> writes_succeed env \<and> callback_returns cb \<and> release_ordinary env"
  then have c: "browser_context ?sa \<noteq> None" using acquire_context [of env self w dh] by simp
  from a have to: "agent_run env (ticks ?wp) = Raises TimeoutError"
    and to2: "agent_run env (Suc (ticks ?wp)) = Raises TimeoutError" by simp_all
  have pa: "fst (run_process_agent env ?sa d ?wp) = Raises TimeoutError"
    and tr: "trace (snd (snd (run_process_agent env ?sa d ?wp)))
        = trace ?wp @ [AgentRun (ProcessAgent d) 100 600, AgentRun (ProcessAgent d) 100 600]"
    using c to to2 by (simp_all add: run_process_agent_context run_with_retry_timeout)
  from a have h: "writes_succeed env" "callback_returns cb" "release_ordinary env"
    and pd: "fst (process_excel_data ?wa) = Returns d"
    and aq: "fst (acquire env self w) = Inr dh" by simp_all
  have t: "run_automation_try env cb self w =
        (Failed TimeoutError [] (Some dh) None, snd (run_process_agent env ?sa d ?wp))"
    using submit_process_raises [OF pd pa, of cb dh] by (simp add: run_automation_try_cases aq)
  then have f: "fst (run_automation_try env cb self w) = Failed TimeoutError [] (Some dh) None"
    by simp
  show "(case fst (run_automation env cb self w) of
         Returns r \<Rightarrow> \<not> success r \<and> error r = Some TimeoutError
                      \<and> r_download_history r = Some dh
       | Raises x \<Rightarrow> False)"
    using failed_run(1) [OF f _ h] by (simp add: failure_record_def)
  show "invocations (ProcessAgent d) (trace (snd (snd (run_automation env cb self w))))
          = invocations (ProcessAgent d) (trace ?wp) + 2"
    using failed_run(2) [OF f _ h, of "ProcessAgent d"] by (simp add: t tr)
qed

theorem single_retry_on_timeout_witness:
  "fst (run_download_agent retry_once runner_A (mk_world [])) = Returns ok_history
   \<and> trace (snd (snd (run_download_agent retry_once runner_A (mk_world []))))
       = [UrlOpen, LogError ''Erro no download direto'',
          AgentRun DownloadAgent 25 300, AgentRun DownloadAgent 25 300]
   \<and> fst (run_process_agent retry_twice runner_A rows2 (mk_world [])) = Raises TimeoutError
   \<and> trace (snd (snd (run_process_agent retry_twice runner_A rows2 (mk_world []))))
       = [AgentRun (ProcessAgent rows2) 100 600, AgentRun (ProcessAgent rows2) 100 600]
   \<and> fst (acquire retry_once runner_A (mk_world [])) = Inr ok_history
   \<and> (case fst (run_automation retry_twice None runner_A (mk_world [])) of
         Returns r \<Rightarrow> \<not> success r \<and> error r = Some TimeoutError \<and> r_download_history r = None
       | Raises x \<Rightarrow> False)
   \<and> invocations DownloadAgent
        (trace (snd (snd (run_automation retry_twice None runner_A (mk_world []))))) = 2
   \<and> (case fst (run_automation submit_retry_once silent_callback runner_A (mk_world [])) of
         Returns r \<Rightarrow> success r \<and> error r = None \<and> r_process_history r = Some ok_history
       | Raises x \<Rightarrow> False)
   \<and> invocations (ProcessAgent rows2)
        (trace (snd (snd (run_automation submit_retry_once silent_callback runner_A (mk_world [])))))
       = 2
   \<and> (case fst (run_automation submit_timeout None runner_A (mk_world [])) of
         Returns r \<Rightarrow> \<not> success r \<and> error r = Some TimeoutError
                      \<and> r_download_history r = Some ok_history
       | Raises x \<Rightarrow> False)
   \<and> invocations (ProcessAgent rows2)
        (trace (snd (snd (run_automation submit_timeout None runner_A (mk_world []))))) = 2"
proof -
  let ?w0 = "mk_world []"
  have c: "browser_context runner_A \<noteq> None" by (simp add: runner_A_def)
  have d1: "fst (direct_download retry_once runner_A ?w0) = None" by code_simp
  have t1: "agent_run retry_once (ticks (snd (snd (direct_download retry_once runner_A ?w0))))
              = Raises TimeoutError" by code_simp
  have t2: "agent_run retry_once (Suc (ticks (snd (snd (direct_download retry_once runner_A ?w0)))))
              = Returns ok_history" by code_simp
  have tr: "trace (snd (snd (direct_download retry_once runner_A ?w0)))
              = [UrlOpen, LogError ''Erro no download direto'']" by code_simp
  have dn: "is_done ok_history" by (simp add: ok_history_def)
  have s1: "agent_run retry_twice (ticks ?w0) = Raises TimeoutError"
    "agent_run retry_twice (Suc (ticks ?w0)) = Raises TimeoutError"
    "trace ?w0 = []"
    by (simp_all add: retry_twice_def offline_def quiet_def mk_world_def)
  have d2: "fst (direct_download retry_twice runner_A ?w0) = None" by code_simp
  have u1: "agent_run retry_twice (ticks (snd (snd (direct_download retry_twice runner_A ?w0))))
              = Raises TimeoutError" by code_simp
  have u2: "agent_run retry_twice (Suc (ticks (snd (snd (direct_download retry_twice runner_A ?w0)))))
              = Raises TimeoutError" by code_simp
  have h2: "writes_succeed retry_twice" "release_ordinary retry_twice"
    by (simp_all add: writes_succeed_def release_ordinary_def retry_twice_def offline_def quiet_def)
  have cb: "callback_returns None" "callback_returns silent_callback"
    by (simp_all add: callback_returns_def silent_callback_def)
  have a3: "fst (acquire submit_retry_once runner_A ?w0) = Inr ok_history" by code_simp
  have p3: "fst (process_excel_data (snd (snd (acquire submit_retry_once runner_A ?w0))))
              = Returns rows2" by code_simp
  have v1: "agent_run submit_retry_once (ticks (snd (snd (acquire submit_retry_once runner_A ?w0))))
              = Raises TimeoutError" by code_simp
  have v2: "agent_run submit_retry_once
              (Suc (ticks (snd (snd (acquire submit_retry_once runner_A ?w0)))))
              = Returns ok_history" by code_simp
  have i3: "invocations (ProcessAgent rows2)
              (trace (snd (process_excel_data (snd (snd (acquire submit_retry_once runner_A ?w0))))))
              = 0" by code_simp
  have h3: "writes_succeed submit_retry_once" "release_ordinary submit_retry_once"
    by (simp_all add: writes_succeed_def release_ordinary_def submit_retry_once_def quiet_def)
  have a4: "fst (acquire submit_timeout runner_A ?w0) = Inr ok_history" by code_simp
  have p4: "fst (process_excel_data (snd (snd (acquire submit_timeout runner_A ?w0))))
              = Returns rows2" by code_simp
  have x1: "agent_run submit_timeout (ticks (snd (snd (acquire submit_timeout runner_A ?w0))))
              = Raises TimeoutError" by code_simp
  have x2: "agent_run submit_timeout (Suc (ticks (snd (snd (acquire submit_timeout runner_A ?w0)))))
              = Raises TimeoutError" by code_simp
  have i4: "invocations (ProcessAgent rows2)
              (trace (snd (process_excel_data (snd (snd (acquire submit_timeout runner_A ?w0))))))
              = 0" by code_simp
  have h4: "writes_succeed submit_timeout" "release_ordinary submit_timeout"
    by (simp_all add: writes_succeed_def release_ordinary_def submit_timeout_def quiet_def)
  have i0: "invocations DownloadAgent (trace ?w0) = 0" by code_simp
  note thm1 = single_retry_on_timeout [of runner_A retry_once ?w0 rows2 ok_history None ok_history
      ok_history]
  note thm2 = single_retry_on_timeout [of runner_A retry_twice ?w0 rows2 ok_history None ok_history
      ok_history]
  note thm3 = single_retry_on_timeout [of runner_A submit_retry_once ?w0 rows2 ok_history
      silent_callback ok_history ok_history]
  note thm4 = single_retry_on_timeout [of runner_A submit_timeout ?w0 rows2 ok_history None
      ok_history ok_history]
  have "fst (run_download_agent retry_once runner_A ?w0) = Returns ok_history"
    "trace (snd (snd (run_download_agent retry_once runner_A ?w0)))
       = [UrlOpen, LogError ''Erro no download direto'',
          AgentRun DownloadAgent 25 300, AgentRun DownloadAgent 25 300]"
    using thm1 c d1 t1 t2 tr by simp_all
  moreover have "fst (run_process_agent retry_twice runner_A rows2 ?w0) = Raises TimeoutError"
    "trace (snd (snd (run_process_agent retry_twice runner_A rows2 ?w0)))
       = [AgentRun (ProcessAgent rows2) 100 600, AgentRun (ProcessAgent rows2) 100 600]"
    using thm2 c s1 by simp_all
  moreover have "fst (acquire retry_once runner_A ?w0) = Inr ok_history"
  proof -
    have "(case fst (acquire retry_once runner_A ?w0) of
         Inr dh' \<Rightarrow> dh' = ok_history \<and> is_done ok_history
       | Inl (Completed r) \<Rightarrow> False
       | Inl (Failed e ls dh' ph') \<Rightarrow>
           dh' = Some ok_history \<and> e \<noteq> TimeoutError
           \<and> (e = DownloadFailed (errors ok_history)) = (\<not> is_done ok_history))"
      using thm1 c d1 t1 t2 by blast
    moreover have "(case fst (acquire retry_once runner_A ?w0) of
         Inl x \<Rightarrow> False | Inr dh' \<Rightarrow> True)" by code_simp
    ultimately show ?thesis by (cases "fst (acquire retry_once runner_A ?w0)") simp_all
  qed
  moreover have "(case fst (run_automation retry_twice None runner_A ?w0) of
         Returns r \<Rightarrow> \<not> success r \<and> error r = Some TimeoutError \<and> r_download_history r = None
       | Raises x \<Rightarrow> False)"
    "invocations DownloadAgent (trace (snd (snd (run_automation retry_twice None runner_A ?w0)))) = 2"
    using thm2 c d2 u1 u2 h2 cb(1) i0 by simp_all
  moreover have "(case fst (run_automation submit_retry_once silent_callback runner_A ?w0) of
         Returns r \<Rightarrow> success r \<and> error r = None \<and> r_process_history r = Some ok_history
       | Raises x \<Rightarrow> False)"
    "invocations (ProcessAgent rows2)
        (trace (snd (snd (run_automation submit_retry_once silent_callback runner_A ?w0)))) = 2"
  proof -
    have k: "(case fst (run_automation submit_retry_once silent_callback runner_A ?w0) of
         Returns r \<Rightarrow>
           r_download_history r = Some ok_history \<and> r_process_history r = Some ok_history
           \<and> success r = is_done ok_history
           \<and> error r = (if is_done ok_history then None
                        else Some (ProcessFailed (errors ok_history)))
       | Raises x \<Rightarrow> False)
      \<and> invocations (ProcessAgent rows2)
          (trace (snd (snd (run_automation submit_retry_once silent_callback runner_A ?w0))))
          = invocations (ProcessAgent rows2)
              (trace (snd (process_excel_data
                             (snd (snd (acquire submit_retry_once runner_A ?w0)))))) + 2"
      using thm3 a3 p3 v1 v2 h3 cb(2) by blast
    show "(case fst (run_automation submit_retry_once silent_callback runner_A ?w0) of
         Returns r \<Rightarrow> success r \<and> error r = None \<and> r_process_history r = Some ok_history
       | Raises x \<Rightarrow> False)"
      using k dn
      by (cases "fst (run_automation submit_retry_once silent_callback runner_A ?w0)") simp_all
    show "invocations (ProcessAgent rows2)
        (trace (snd (snd (run_automation submit_retry_once silent_callback runner_A ?w0)))) = 2"
      using k i3 by simp
  qed
  moreover have "(case fst (run_automation submit_timeout None runner_A ?w0) of
         Returns r \<Rightarrow> \<not> success r \<and> error r = Some TimeoutError
                      \<and> r_download_history r = Some ok_history
       | Raises x \<Rightarrow> False)"
    "invocations (ProcessAgent rows2)
        (trace (snd (snd (run_automation submit_timeout None runner_A ?w0)))) = 2"
    using thm4 a4 p4 x1 x2 h4 cb(1) i4 by simp_all
  ultimately show ?thesis by blast
qed

text \<open>
  Claim C1 as stated fails after two timeouts of the download agent when the handler
  cannot write the summary file (\<open>open\<close> raises inside \<open>except Exception\<close>), and when
  the task is cancelled while the browser context is being closed: \<open>run_automation\<close>
  raises, and no record is produced.
\<close>

theorem timeouts_without_record_counterexample:
  "agent_run write_fails 0 = Raises TimeoutError
   \<and> agent_run write_fails 1 = Raises TimeoutError
   \<and> invocations DownloadAgent
        (trace (snd (snd (run_automation write_fails None runner_A (mk_world []))))) = 2
   \<and> fst (run_automation write_fails None runner_A (mk_world []))
       = Raises (External ''PermissionError'')
   \<and> agent_run timeouts_then_cancelled 0 = Raises TimeoutError
   \<and> agent_run timeouts_then_cancelled 1 = Raises TimeoutError
   \<and> invocations DownloadAgent
        (trace (snd (snd (run_automation timeouts_then_cancelled None runner_A (mk_world []))))) = 2
   \<and> fst (run_automation timeouts_then_cancelled None runner_A (mk_world []))
       = Raises CancelledError"
  by code_simp







text \<open>
  Claim C4 fails on a file that never becomes stable. The download agent leaves
  \<open>challenge.xlsx\<close>, which grows during every later wait. Each of the five attempts
  finds the file, sleeps two seconds, sees another size, and sleeps five seconds; after
  the loop \<open>excel_file\<close> still holds the name from the fifth attempt, so no error is
  raised: the file is parsed, the submission agent runs on its rows, and the run is
  reported as a success.
\<close>

theorem poll_exhausted_unstable_proceeds:
  "trace (snd (snd (run_automation growing None runner_A (mk_world [])))) =
     [UrlOpen, LogError ''Erro no download direto'', AgentRun DownloadAgent 25 300, Sleep 10,
      PdReadExcel ''challenge.xlsx'', Sleep 2, Sleep 5,
      PdReadExcel ''challenge.xlsx'', Sleep 2, Sleep 5,
      PdReadExcel ''challenge.xlsx'', Sleep 2, Sleep 5,
      PdReadExcel ''challenge.xlsx'', Sleep 2, Sleep 5,
      PdReadExcel ''challenge.xlsx'', Sleep 2, Sleep 5,
      PdReadExcel ''challenge.xlsx'', PdReadExcel ''challenge.xlsx'',
      AgentRun (ProcessAgent rows2) 100 600, SummaryWrite ''resultados_A.txt'',
      ContextClose, BrowserClose]
   \<and> count_list (trace (snd (snd (run_automation growing None runner_A (mk_world []))))) (Sleep 5) = 5
   \<and> process_agent (fst (snd (run_automation growing None runner_A (mk_world []))))
       = Some (ProcessAgent rows2)
   \<and> (case fst (run_automation growing None runner_A (mk_world [])) of
         Returns r \<Rightarrow> success r \<and> error r = None
       | Raises e \<Rightarrow> False)"
  by code_simp

text \<open>
  Claim C5, as amended. In \<open>run_download_agent\<close>, for a runner with a browser context:
  when the direct fetch succeeds validation and the page-check agent returns (or its
  await is cancelled), the download agent is not invoked; when the direct fetch succeeds
  validation and the page-check agent raises an \<open>Exception\<close>, a timeout included, the
  download agent is invoked as after a failed validation; when the direct fetch fails
  validation, the download agent is invoked exactly once, or twice when its first
  invocation times out.
\<close>

theorem fetch_strategy_choice:
  assumes "browser_context self \<noteq> None"
  shows
   "(direct_valid env
       \<and> (case agent_run env (ticks w) of Returns h \<Rightarrow> True | Raises e \<Rightarrow> \<not> is_Exception e) \<longrightarrow>
       invocations DownloadAgent (trace (snd (snd (run_download_agent env self w))))
         = invocations DownloadAgent (trace w))
    \<and> (direct_valid env
       \<and> (case agent_run env (ticks w) of Returns h \<Rightarrow> False | Raises e \<Rightarrow> is_Exception e) \<longrightarrow>
       invocations DownloadAgent (trace (snd (snd (run_download_agent env self w))))
         = invocations DownloadAgent (trace w)
           + (if agent_run env (Suc (ticks w)) = Raises TimeoutError then 2 else 1))
    \<and> (\<not> direct_valid env \<longrightarrow>
       invocations DownloadAgent (trace (snd (snd (run_download_agent env self w))))
         = invocations DownloadAgent (trace w)
           + (if agent_run env (ticks w) = Raises TimeoutError then 2 else 1))"
proof (intro conjI impI)
  let ?wd = "snd (snd (direct_download env self w))"
  have agent: "invocations DownloadAgent (trace (snd (run_with_retry env DownloadAgent 25 300 v)))
       = invocations DownloadAgent (trace v)
         + (if agent_run env (ticks v) = Raises TimeoutError then 2 else 1)" for v
    by (cases "agent_run env (ticks v) = Raises TimeoutError")
       (simp_all add: run_with_retry_timeout run_with_retry_no_timeout)
  {
    assume a: "direct_valid env
       \<and> (case agent_run env (ticks w) of Returns h \<Rightarrow> True | Raises e \<Rightarrow> \<not> is_Exception e)"
    then obtain res where "fst (direct_download env self w) = Some res"
      by (auto simp: direct_download_valid split: outcome.splits)
    then show "invocations DownloadAgent (trace (snd (snd (run_download_agent env self w))))
         = invocations DownloadAgent (trace w)"
      using assms a by (simp add: run_download_agent_left direct_download_valid)
  }
  {
    assume a: "direct_valid env
       \<and> (case agent_run env (ticks w) of Returns h \<Rightarrow> False | Raises e \<Rightarrow> is_Exception e)"
    then have "fst (direct_download env self w) = None"
      by (auto simp: direct_download_valid split: outcome.splits)
    then show "invocations DownloadAgent (trace (snd (snd (run_download_agent env self w))))
         = invocations DownloadAgent (trace w)
           + (if agent_run env (Suc (ticks w)) = Raises TimeoutError then 2 else 1)"
      using assms a agent [of ?wd] by (simp add: run_download_agent_agent direct_download_valid)
  }
  assume a: "\<not> direct_valid env"
  then have "fst (direct_download env self w) = None" by (simp add: direct_download_invalid)
  then show "invocations DownloadAgent (trace (snd (snd (run_download_agent env self w))))
         = invocations DownloadAgent (trace w)
           + (if agent_run env (ticks w) = Raises TimeoutError then 2 else 1)"
    using assms a agent [of ?wd] by (simp add: run_download_agent_agent direct_download_invalid)
qed

text \<open>
  The theorem where the direct fetch and the page check succeed, where the page check
  times out, and where the direct fetch fails.
\<close>

theorem fetch_strategy_choice_witness:
  "invocations DownloadAgent (trace (snd (snd (run_download_agent quiet runner_A (mk_world []))))) = 0
   \<and> invocations DownloadAgent (trace (snd (snd (run_download_agent page_check_timeout runner_A (mk_world []))))) = 1
   \<and> invocations DownloadAgent (trace (snd (snd (run_download_agent offline runner_A (mk_world []))))) = 1"
proof -
  have c: "browser_context runner_A \<noteq> None" by (simp add: runner_A_def)
  have v: "direct_valid quiet" "direct_valid page_check_timeout" "\<not> direct_valid offline"
    by (simp_all add: direct_valid_def quiet_def page_check_timeout_def offline_def rows2_def)
  have p: "agent_run quiet (ticks (mk_world [])) = Returns ok_history"
    "agent_run page_check_timeout (ticks (mk_world [])) = Raises TimeoutError"
    "agent_run page_check_timeout (Suc (ticks (mk_world []))) = Returns ok_history"
    "agent_run offline (ticks (mk_world [])) = Returns ok_history"
    by (simp_all add: quiet_def page_check_timeout_def offline_def mk_world_def)
  have z: "invocations DownloadAgent (trace (mk_world [])) = 0" by (simp add: mk_world_def)
  show ?thesis
    using fetch_strategy_choice [OF c, of quiet "mk_world []"]
      fetch_strategy_choice [OF c, of page_check_timeout "mk_world []"]
      fetch_strategy_choice [OF c, of offline "mk_world []"] v p z
    by simp
qed

text \<open>
  Claim C5 as stated fails: the direct fetch succeeds validation, the page-check agent
  times out, and the download agent is invoked.
\<close>

theorem fetch_fallback_after_valid_direct_counterexample:
  "direct_valid page_check_timeout
   \<and> invocations DownloadAgent
       (trace (snd (snd (run_download_agent page_check_timeout runner_A (mk_world []))))) = 1
   \<and> trace (snd (snd (run_download_agent page_check_timeout runner_A (mk_world [])))) =
       [UrlOpen, FileWrite ''challenge_direct.xlsx'', PdReadExcel ''challenge_direct.xlsx'',
        AgentRun PageCheckAgent 5 60, LogError ''Erro ao validar arquivo Excel'',
        AgentRun DownloadAgent 25 300]"
  by code_simp

text \<open>
  Claim C9, as amended. The cache belongs to the module, not to a runner: no step of a
  run before the parse changes it, and neither the handler nor the release does. So when
  a run, of any runner, reaches the parse with an entry for path \<open>p\<close> in the cache, left
  there by whichever run parsed last, and the locator returns \<open>p\<close>, the parse is a hit:
  it yields the cached records without reading the file.
\<close>

theorem parse_cache_shared_by_runs:
  assumes "fst (acquire env self w) = Inr dh"
    and "entry (lru w) = Some (p, v)"
    and "fst (find_latest_challenge_file (snd (snd (acquire env self w)))) = Some p"
  shows "fst (process_excel_data (snd (snd (acquire env self w))))
           = (case v of Some (r # rs) \<Rightarrow> Returns (r # rs) | _ \<Rightarrow> Raises ExcelDataUnreadable)
    \<and> lru (snd (process_excel_data (snd (snd (acquire env self w)))))
           = (lru w)\<lparr>hits := Suc (hits (lru w))\<rparr>
    \<and> lru (snd (snd (run_automation env cb self w)))
           = lru (snd (snd (run_automation_try env cb self w)))"
proof -
  let ?wa = "snd (snd (acquire env self w))"
  let ?wf = "snd (find_latest_challenge_file ?wa)"
  have l: "lru ?wf = lru w" by simp
  then have e: "entry (lru ?wf) = Some (p, v)" using assms(2) by simp
  have h: "read_excel_data p ?wf = (v, hit ?wf)" by (rule read_excel_data_hit [OF e])
  have "fst (process_excel_data ?wa)
           = (case v of Some (r # rs) \<Rightarrow> Returns (r # rs) | _ \<Rightarrow> Raises ExcelDataUnreadable)"
    using assms(3) h by (simp add: fst_process_excel_data split: option.splits list.splits)
  moreover have "lru (snd (process_excel_data ?wa)) = (lru w)\<lparr>hits := Suc (hits (lru w))\<rparr>"
    using assms(3) h l by (simp add: snd_process_excel_data hit_def)
  moreover have "lru (snd (snd (run_automation env cb self w)))
           = lru (snd (snd (run_automation_try env cb self w)))"
    by (simp add: snd_run_automation run_automation_guarded_lru)
  ultimately show ?thesis by simp
qed

text \<open>
  The theorem for a second runner that starts after a first run: the second direct fetch
  has written other rows to the same path, and the parse yields the rows of the first
  run.
\<close>

theorem parse_cache_shared_by_runs_witness:
  "entry (lru world_after_A) = Some (direct_file, Some rows2)
   \<and> on_disk (fs (snd (snd (acquire second_fetch runner_B world_after_A)))) direct_file = Some rows_B
   \<and> fst (process_excel_data (snd (snd (acquire second_fetch runner_B world_after_A))))
       = Returns rows2
   \<and> hits (lru (snd (process_excel_data (snd (snd (acquire second_fetch runner_B world_after_A))))))
       = Suc (hits (lru world_after_A))"
proof -
  have a: "fst (acquire second_fetch runner_B world_after_A) = Inr ok_history" by code_simp
  have e: "entry (lru world_after_A) = Some (direct_file, Some rows2)" by code_simp
  have f: "fst (find_latest_challenge_file (snd (snd (acquire second_fetch runner_B world_after_A))))
             = Some direct_file" by code_simp
  have d: "on_disk (fs (snd (snd (acquire second_fetch runner_B world_after_A)))) direct_file
             = Some rows_B" by code_simp
  have r: "(case rows2 of [] \<Rightarrow> Raises ExcelDataUnreadable | r # rs \<Rightarrow> Returns (r # rs))
             = Returns rows2"
    by (simp add: rows2_def)
  show ?thesis
    using parse_cache_shared_by_runs [OF a e f, of None] e d r by simp
qed

text \<open>
  Claim C9 as stated fails: run A leaves its entry in the cache; run B, of another
  runner, fetches a file with other rows to the same path, gets a cache hit (one hit, no
  further miss), and submits the rows of run A.
\<close>

theorem run_B_hits_entry_of_run_A_counterexample:
  "run_id runner_A \<noteq> run_id runner_B
   \<and> entry (lru world_after_A) = Some (direct_file, Some rows2)
   \<and> hits (lru world_after_A) = 0 \<and> misses (lru world_after_A) = 1
   \<and> hits (lru (snd (snd (run_automation second_fetch None runner_B world_after_A)))) = 1
   \<and> misses (lru (snd (snd (run_automation second_fetch None runner_B world_after_A)))) = 1
   \<and> on_disk (fs (snd (snd (run_automation second_fetch None runner_B world_after_A)))) direct_file
       = Some rows_B
   \<and> process_agent (fst (snd (run_automation second_fetch None runner_B world_after_A)))
       = Some (ProcessAgent rows2)"
  by code_simp

end
